theory Spec2Isabelle
  imports Main "HOL-Library.Word" "HOL-Library.Sublist"
begin

section \<open>samcli/lib/utils/subprocess\_utils.py\<close>

text \<open>
  A shallow embedding of \<^verbatim>\<open>invoke_subprocess_with_loading_pattern\<close> and its helpers.
  The Python function talks to three things outside itself: the child process behind
  \<^verbatim>\<open>subprocess.Popen\<close>, the logging level, and the stream writer.  The child is a
  record saying what it does (whether it launches, for how many polls it is seen running,
  what it writes, its exit code); the writer and the logger are a trace of the calls made
  on them.  Exceptions are values of a sum type, a call that never returns is \<open>None\<close>.
\<close>

subsection \<open>Python values\<close>

text \<open>
  A Python \<^verbatim>\<open>str\<close> is a sequence of Unicode code points, a \<^verbatim>\<open>bytes\<close> a sequence
  of octets.  \<^verbatim>\<open>AnyStr\<close> is one or the other.
\<close>

type_synonym byte = "8 word"
type_synonym pystr = "nat list"

datatype anystr = Bytes "byte list" | Str pystr

definition ascii :: "string \<Rightarrow> pystr" where
  "ascii s = map of_char s"

text \<open>The values a \<^verbatim>\<open>command_args\<close> entry holds; \<open>PObject\<close> is any other object (an open file).\<close>

datatype pyval = PNone | PBool bool | PInt int | PStr pystr | PList "pyval list" | PObject nat

type_synonym kwargs = "string \<rightharpoonup> pyval"

text \<open>Python's truth test, as \<^verbatim>\<open>not x\<close> applies it.\<close>

fun truthy :: "pyval \<Rightarrow> bool" where
  "truthy PNone = False"
| "truthy (PBool b) = b"
| "truthy (PInt i) = (i \<noteq> 0)"
| "truthy (PStr s) = (s \<noteq> [])"
| "truthy (PList vs) = (vs \<noteq> [])"
| "truthy (PObject _) = True"

text \<open>\<^verbatim>\<open>d.get(k)\<close> and \<^verbatim>\<open>d.get(k, default)\<close>.\<close>

definition dict_get :: "kwargs \<Rightarrow> string \<Rightarrow> pyval \<Rightarrow> pyval" where
  "dict_get d k dflt = (case d k of None \<Rightarrow> dflt | Some v \<Rightarrow> v)"

text \<open>
  \<^verbatim>\<open>subprocess.PIPE\<close> is \<open>-1\<close>, \<^verbatim>\<open>subprocess.STDOUT\<close> is \<open>-2\<close>,
  \<^verbatim>\<open>subprocess.DEVNULL\<close> is \<open>-3\<close>, \<^verbatim>\<open>logging.INFO\<close> is \<open>20\<close>.
\<close>

definition PIPE :: pyval where
  "PIPE = PInt (- 1)"

definition STDOUT :: pyval where
  "STDOUT = PInt (- 2)"

definition DEVNULL :: pyval where
  "DEVNULL = PInt (- 3)"

definition INFO :: int where
  "INFO = 20"

text \<open>
  The exceptions that occur.  \<open>OSError\<close> and \<open>ValueError\<close> stand for the classes and
  their subclasses (\<^verbatim>\<open>FileNotFoundError\<close>, \<^verbatim>\<open>UnicodeDecodeError\<close>), which is what the
  \<^verbatim>\<open>except\<close> clause tests; the text is \<^verbatim>\<open>str(e)\<close>.  \<open>OtherError\<close> is any exception
  of another class.  \<open>Unmodelled\<close> marks the one place where this theory does not say
  what Python does (see \<open>str_format\<close>).
\<close>

datatype exn =
    OSError pystr
  | ValueError pystr
  | IndexError
  | OtherError pystr
  | LoadingPatternError pystr
  | Unmodelled

subsection \<open>Library functions\<close>

text \<open>
  \<^verbatim>\<open>str.isspace\<close> on one code point: the characters \<^verbatim>\<open>str.strip()\<close> removes.
\<close>

definition py_isspace :: "nat \<Rightarrow> bool" where
  "py_isspace c =
     ((9 \<le> c \<and> c \<le> 13) \<or> (28 \<le> c \<and> c \<le> 32) \<or> c = 0x85 \<or> c = 0xA0 \<or> c = 0x1680
      \<or> (0x2000 \<le> c \<and> c \<le> 0x200A) \<or> c = 0x2028 \<or> c = 0x2029 \<or> c = 0x202F
      \<or> c = 0x205F \<or> c = 0x3000)"

definition py_rstrip :: "pystr \<Rightarrow> pystr" where
  "py_rstrip s = rev (dropWhile py_isspace (rev s))"

definition py_lstrip :: "pystr \<Rightarrow> pystr" where
  "py_lstrip s = dropWhile py_isspace s"

text \<open>\<^verbatim>\<open>str.strip()\<close> removes whitespace at both ends.\<close>

definition py_strip :: "pystr \<Rightarrow> pystr" where
  "py_strip s = py_lstrip (py_rstrip s)"

text \<open>
  \<^verbatim>\<open>bytes.decode("utf-8")\<close> with the default strict error handling: \<open>None\<close> where
  Python raises \<^verbatim>\<open>UnicodeDecodeError\<close> (a stray or missing continuation byte, an
  overlong form, a surrogate, a code point beyond U+10FFFF).
\<close>

definition continuation :: "byte \<Rightarrow> bool" where
  "continuation b = (0x80 \<le> unat b \<and> unat b \<le> 0xBF)"

fun utf8_decode :: "byte list \<Rightarrow> pystr option" where
  "utf8_decode [] = Some []"
| "utf8_decode (b # bs) =
     (let n = unat b in
      if n < 0x80 then map_option ((#) n) (utf8_decode bs)
      else if 0xC2 \<le> n \<and> n \<le> 0xDF then
        (case bs of
           b1 # r \<Rightarrow>
             if continuation b1
             then map_option ((#) ((n - 0xC0) * 64 + (unat b1 - 0x80))) (utf8_decode r)
             else None
         | _ \<Rightarrow> None)
      else if 0xE0 \<le> n \<and> n \<le> 0xEF then
        (case bs of
           b1 # b2 # r \<Rightarrow>
             if continuation b1 \<and> continuation b2
                \<and> (if n = 0xE0 then 0xA0 \<le> unat b1 else True)
                \<and> (if n = 0xED then unat b1 \<le> 0x9F else True)
             then map_option
                    ((#) ((n - 0xE0) * 4096 + (unat b1 - 0x80) * 64 + (unat b2 - 0x80)))
                    (utf8_decode r)
             else None
         | _ \<Rightarrow> None)
      else if 0xF0 \<le> n \<and> n \<le> 0xF4 then
        (case bs of
           b1 # b2 # b3 # r \<Rightarrow>
             if continuation b1 \<and> continuation b2 \<and> continuation b3
                \<and> (if n = 0xF0 then 0x90 \<le> unat b1 else True)
                \<and> (if n = 0xF4 then unat b1 \<le> 0x8F else True)
             then map_option
                    ((#) ((n - 0xF0) * 262144 + (unat b1 - 0x80) * 4096
                          + (unat b2 - 0x80) * 64 + (unat b3 - 0x80)))
                    (utf8_decode r)
             else None
         | _ \<Rightarrow> None)
      else None)"

text \<open>\<^verbatim>\<open>str(i)\<close> of an integer: decimal digits, a minus sign when negative.\<close>

fun nat_digits :: "nat \<Rightarrow> pystr" where
  "nat_digits n = (if n < 10 then [48 + n] else nat_digits (n div 10) @ [48 + n mod 10])"

declare nat_digits.simps [simp del]

definition py_str_int :: "int \<Rightarrow> pystr" where
  "py_str_int i = (if i < 0 then 45 # nat_digits (nat (- i)) else nat_digits (nat i))"

text \<open>
  \<^verbatim>\<open>fmt.format(ex=v)\<close>, the call in \<^verbatim>\<open>LoadingPatternError.__init__\<close>.  The format
  string is scanned from the left: other characters are copied, \<^verbatim>\<open>{{\<close> and \<^verbatim>\<open>}}\<close>
  give one brace, a lone \<^verbatim>\<open>}\<close> or a final \<^verbatim>\<open>{\<close> raises \<^verbatim>\<open>ValueError\<close>,
  the field \<^verbatim>\<open>{}\<close> asks for a positional argument that was not given and raises
  \<^verbatim>\<open>IndexError\<close>, and the field \<^verbatim>\<open>{ex}\<close> is replaced by \<open>v\<close>.  Any other
  replacement field (another name, an attribute, an index, a conversion, a format
  specification) is outside this model: the result is \<open>Unmodelled\<close> there.
\<close>

definition single_open :: pystr where
  "single_open = ascii ''Single '' @ [0x27, 0x7B, 0x27] @ ascii '' encountered in format string''"

definition single_close :: pystr where
  "single_close = ascii ''Single '' @ [0x27, 0x7D, 0x27] @ ascii '' encountered in format string''"

definition emit :: "pystr \<Rightarrow> exn + pystr \<Rightarrow> exn + pystr" where
  "emit s r = (case r of Inl e \<Rightarrow> Inl e | Inr t \<Rightarrow> Inr (s @ t))"

fun str_format :: "pystr \<Rightarrow> pystr \<Rightarrow> exn + pystr" where
  "str_format [] v = Inr []"
| "str_format [c] v =
     (if c = 0x7B then Inl (ValueError single_open)
      else if c = 0x7D then Inl (ValueError single_close)
      else Inr [c])"
| "str_format (c # d # cs) v =
     (if c = 0x7D then
        (if d = 0x7D then emit [0x7D] (str_format cs v) else Inl (ValueError single_close))
      else if c = 0x7B then
        (if d = 0x7B then emit [0x7B] (str_format cs v)
         else if d = 0x7D then Inl IndexError
         else (case cs of
                 x # y # rest \<Rightarrow>
                   if d = 0x65 \<and> x = 0x78 \<and> y = 0x7D then emit v (str_format rest v)
                   else Inl Unmodelled
               | _ \<Rightarrow> Inl Unmodelled))
      else emit [c] (str_format (d # cs) v))"

text \<open>
  Iterating over a file object yields its lines, each with its line end: the content is
  cut after every newline.  \<open>at_eof\<close> is what \<^verbatim>\<open>read()\<close> gives once everything was
  consumed.
\<close>

fun split_lines :: "'a \<Rightarrow> 'a list \<Rightarrow> 'a list list" where
  "split_lines nl [] = []"
| "split_lines nl (x # xs) =
     (if x = nl then [x] # split_lines nl xs
      else (case split_lines nl xs of [] \<Rightarrow> [[x]] | l # ls \<Rightarrow> (x # l) # ls))"

fun file_lines :: "anystr \<Rightarrow> anystr list" where
  "file_lines (Bytes bs) = map Bytes (split_lines 0x0A bs)"
| "file_lines (Str s) = map Str (split_lines 10 s)"

fun at_eof :: "anystr \<Rightarrow> anystr" where
  "at_eof (Bytes bs) = Bytes []"
| "at_eof (Str s) = Str []"

subsection \<open>The world around the call\<close>

text \<open>
  What the logging level, \<^verbatim>\<open>os.linesep\<close>, \<^verbatim>\<open>str()\<close> of a \<^verbatim>\<open>command_args\<close> value and
  \<^verbatim>\<open>str()\<close> of a \<^verbatim>\<open>UnicodeDecodeError\<close> are.
\<close>

record env =
  log_level :: int
  linesep :: pystr
  py_str :: "pyval \<Rightarrow> pystr"
  decode_error :: "byte list \<Rightarrow> pystr"

text \<open>
  The child process: \<open>launch_error\<close> is the exception \<^verbatim>\<open>Popen(...)\<close> raises, if any (an
  executable that is not found, arguments it refuses);
  \<open>exits_after = Some n\<close> says that \<^verbatim>\<open>poll()\<close> returns \<^verbatim>\<open>None\<close> \<open>n\<close> times before it
  sees the exit, \<open>exits_after = None\<close> that the child never exits; \<open>wait_error\<close> is the
  exception \<^verbatim>\<open>wait()\<close> raises, if any; \<open>child_stdout\<close> and \<open>child_stderr\<close> are the
  bytes the child writes to its standard output and to its standard error, and
  \<open>child_merged\<close> is the two together in the order written, which is what arrives when
  both go to one pipe.  \<open>text_layer encoding errors bs\<close> is the text a pipe opened in text
  mode delivers of the bytes \<open>bs\<close>: the decoding under the request's \<^verbatim>\<open>encoding\<close> and
  \<^verbatim>\<open>errors\<close> with the line ends translated, taken as given (a text layer that fails to
  decode is not in the model).
\<close>

record child =
  launch_error :: "exn option"
  exits_after :: "nat option"
  returncode :: int
  wait_error :: "exn option"
  child_stdout :: "byte list"
  child_stderr :: "byte list"
  child_merged :: "byte list"
  text_layer :: "pyval \<Rightarrow> pyval \<Rightarrow> byte list \<Rightarrow> pystr"

text \<open>The \<^verbatim>\<open>Popen\<close> object: its two stream attributes, \<open>None\<close> or what is left to read.\<close>

record popen =
  stdout :: "anystr option"
  stderr :: "anystr option"

text \<open>
  \<^verbatim>\<open>Popen(**kwargs)\<close>, as \<^verbatim>\<open>subprocess.py\<close> has it.  The pipes are opened in text mode
  when \<^verbatim>\<open>encoding or errors or text or universal_newlines\<close> is true.  An attribute is a
  stream exactly when the argument of that name is \<^verbatim>\<open>PIPE\<close>; with \<^verbatim>\<open>stderr=STDOUT\<close>
  the standard error goes where the standard output goes, so the pipe on standard output
  delivers both.
\<close>

definition text_mode :: "kwargs \<Rightarrow> bool" where
  "text_mode kw =
     (truthy (dict_get kw ''encoding'' PNone) \<or> truthy (dict_get kw ''errors'' PNone)
      \<or> truthy (dict_get kw ''text'' PNone) \<or> truthy (dict_get kw ''universal_newlines'' PNone))"

definition pipe_end :: "child \<Rightarrow> kwargs \<Rightarrow> byte list \<Rightarrow> anystr" where
  "pipe_end ch kw bs =
     (if text_mode kw
      then Str (text_layer ch (dict_get kw ''encoding'' PNone) (dict_get kw ''errors'' PNone) bs)
      else Bytes bs)"

definition Popen :: "child \<Rightarrow> kwargs \<Rightarrow> exn + popen" where
  "Popen ch kw =
     (case launch_error ch of
        Some e \<Rightarrow> Inl e
      | None \<Rightarrow>
          Inr \<lparr>stdout =
                 (if kw ''stdout'' = Some PIPE
                  then Some (pipe_end ch kw
                         (if kw ''stderr'' = Some STDOUT then child_merged ch else child_stdout ch))
                  else None),
               stderr =
                 (if kw ''stderr'' = Some PIPE then Some (pipe_end ch kw (child_stderr ch))
                  else None)\<rparr>)"

text \<open>The call of line 78, with the keyword arguments it was made with.\<close>

definition launch :: "child \<Rightarrow> kwargs \<Rightarrow> (exn + popen) \<times> kwargs list" where
  "launch ch kw = (Popen ch kw, [kw])"

definition poll :: "child \<Rightarrow> nat \<Rightarrow> int option" where
  "poll ch k =
     (case exits_after ch of
        None \<Rightarrow> None
      | Some n \<Rightarrow> if k < n then None else Some (returncode ch))"

text \<open>\<^verbatim>\<open>process.wait()\<close> blocks until the child exits: \<open>None\<close> when it never does.\<close>

definition wait :: "child \<Rightarrow> (exn + int) option" where
  "wait ch =
     (case exits_after ch of
        None \<Rightarrow> None
      | Some n \<Rightarrow> (case wait_error ch of Some e \<Rightarrow> Some (Inl e) | None \<Rightarrow> Some (Inr (returncode ch))))"

text \<open>
  The calls the function makes on the stream writer, the logger, the loading pattern
  and, leaving the \<^verbatim>\<open>with\<close> block, on \<^verbatim>\<open>Popen.__exit__\<close>, in the order it makes them.
\<close>

datatype writer = StderrWriter | Writer nat

datatype event =
    PatternCall writer
  | SinkWrite writer pystr
  | SinkFlush writer
  | LogDebug pystr
  | Released

fun sink_event :: "event \<Rightarrow> bool" where
  "sink_event (SinkWrite w s) = True"
| "sink_event (SinkFlush w) = True"
| "sink_event _ = False"

text \<open>
  \<^verbatim>\<open>Popen.__exit__\<close> closes the streams and waits for the child, so it returns only
  when the child exits.
\<close>

definition popen_exit :: "child \<Rightarrow> event list \<Rightarrow> event list option" where
  "popen_exit ch tr = (case exits_after ch of None \<Rightarrow> None | Some n \<Rightarrow> Some (tr @ [Released]))"

text \<open>
  What the caller finds after the call: its dictionary, the keyword arguments of each
  call of \<^verbatim>\<open>Popen\<close> that was made, and the trace.
\<close>

record world =
  args_after :: kwargs
  popen_calls :: "kwargs list"
  trace :: "event list"

subsection \<open>The functions of the module\<close>

text \<open>
  \<^verbatim>\<open>LoadingPatternError(ex)\<close>: the message is built with an f-string and then passed
  through \<^verbatim>\<open>str.format\<close> once more; when that raises, the exception raised is that one.
\<close>

definition new_LoadingPatternError :: "pystr \<Rightarrow> exn" where
  "new_LoadingPatternError ex =
     (case str_format (ascii ''Failed to execute the subprocess. '' @ ex) ex of
        Inl e \<Rightarrow> e
      | Inr message \<Rightarrow> LoadingPatternError message)"

definition check_and_process_bytes :: "env \<Rightarrow> anystr \<Rightarrow> exn + pystr" where
  "check_and_process_bytes env check_value =
     (case check_value of
        Bytes bs \<Rightarrow>
          (case utf8_decode bs of
             None \<Rightarrow> Inl (ValueError (decode_error env bs))
           | Some s \<Rightarrow> Inr (py_strip s))
      | Str s \<Rightarrow> Inr s)"

definition check_and_convert_stream_to_string :: "env \<Rightarrow> anystr option \<Rightarrow> exn + pystr" where
  "check_and_convert_stream_to_string env stream =
     (case stream of
        None \<Rightarrow> Inr []
      | Some byte_stream \<Rightarrow> check_and_process_bytes env byte_stream)"

text \<open>
  Lines 81-82, \<^verbatim>\<open>while process.poll() is None: loading_pattern(stream_writer)\<close>.
  \<open>process_poll k\<close> is what poll number \<open>k\<close> returns.  The loading pattern is the
  caller's: \<open>loading_pattern k\<close> is the exception its call number \<open>k\<close> raises, if
  any.  The loop runs for as long as the child does.
\<close>

partial_function (option) indicator_loop ::
  "(nat \<Rightarrow> int option) \<Rightarrow> (nat \<Rightarrow> exn option) \<Rightarrow> writer \<Rightarrow> nat \<Rightarrow> event list
     \<Rightarrow> (exn option \<times> event list) option"
where
  "indicator_loop process_poll loading_pattern w k tr =
     (if process_poll k = None then
        (case loading_pattern k of
           Some e \<Rightarrow> Some (Some e, tr @ [PatternCall w])
         | None \<Rightarrow> indicator_loop process_poll loading_pattern w (Suc k) (tr @ [PatternCall w]))
      else Some (None, tr))"

text \<open>Lines 85-88, the loop over the lines of \<^verbatim>\<open>process.stdout\<close>.\<close>

fun stream_loop :: "env \<Rightarrow> anystr list \<Rightarrow> pystr \<Rightarrow> event list \<Rightarrow> (exn + pystr) \<times> event list" where
  "stream_loop env [] process_output tr = (Inr process_output, tr)"
| "stream_loop env (line # rest) process_output tr =
     (case check_and_process_bytes env line of
        Inl e \<Rightarrow> (Inl e, tr)
      | Inr decoded_line \<Rightarrow>
          stream_loop env rest (process_output @ decoded_line) (tr @ [LogDebug decoded_line]))"

text \<open>
  Lines 79-88: the choice between the two loops.  The result is the exception that ended
  the loop, or \<^verbatim>\<open>process_output\<close> and the process with what is left on its streams.
\<close>

definition observe ::
  "env \<Rightarrow> child \<Rightarrow> (nat \<Rightarrow> exn option) \<Rightarrow> writer \<Rightarrow> popen
     \<Rightarrow> ((exn + pystr \<times> popen) \<times> event list) option" where
  "observe env ch loading_pattern w process =
     (if INFO \<le> log_level env then
        (case indicator_loop (poll ch) loading_pattern w 0 [] of
           None \<Rightarrow> None
         | Some (Some e, tr) \<Rightarrow> Some (Inl e, tr)
         | Some (None, tr) \<Rightarrow> Some (Inr ([], process), tr))
      else
        (case stdout process of
           None \<Rightarrow> Some (Inr ([], process), [])
         | Some s \<Rightarrow>
             (case stream_loop env (file_lines s) [] [] of
                (Inl e, tr) \<Rightarrow> Some (Inl e, tr)
              | (Inr process_output, tr) \<Rightarrow>
                  Some (Inr (process_output, process\<lparr>stdout := Some (at_eof s)\<rparr>), tr))))"

text \<open>The two messages, lines 102-103 and line 107.\<close>

definition nonzero_exit_message :: "env \<Rightarrow> kwargs \<Rightarrow> int \<Rightarrow> pystr \<Rightarrow> pystr" where
  "nonzero_exit_message env command_args rc process_stderr =
     ascii ''The process '' @ py_str env (dict_get command_args ''args'' (PList []))
       @ ascii '' returned a non-zero exit code '' @ py_str_int rc @ ascii ''. ''
       @ process_stderr"

definition execution_failed_message :: "env \<Rightarrow> kwargs \<Rightarrow> pystr \<Rightarrow> pystr" where
  "execution_failed_message env command_args e =
     ascii ''Subprocess execution failed '' @ py_str env (dict_get command_args ''args'' (PList []))
       @ ascii ''. '' @ e"

text \<open>Lines 79-104, the body of the \<^verbatim>\<open>with\<close> block.\<close>

definition with_body ::
  "env \<Rightarrow> child \<Rightarrow> kwargs \<Rightarrow> (nat \<Rightarrow> exn option) \<Rightarrow> writer \<Rightarrow> popen
     \<Rightarrow> ((exn + pystr) \<times> event list) option" where
  "with_body env ch command_args loading_pattern w process =
     (case observe env ch loading_pattern w process of
        None \<Rightarrow> None
      | Some (Inl e, tr) \<Rightarrow> Some (Inl e, tr)
      | Some (Inr (process_output, process'), tr) \<Rightarrow>
          (case wait ch of
             None \<Rightarrow> None
           | Some (Inl e) \<Rightarrow> Some (Inl e, tr)
           | Some (Inr return_code) \<Rightarrow>
               (let tr' = tr @ [SinkWrite w (linesep env), SinkFlush w] in
                case (if process_output = []
                      then check_and_convert_stream_to_string env (stdout process')
                      else Inr process_output) of
                  Inl e \<Rightarrow> Some (Inl e, tr')
                | Inr process_output' \<Rightarrow>
                    (case check_and_convert_stream_to_string env (stderr process') of
                       Inl e \<Rightarrow> Some (Inl e, tr')
                     | Inr process_stderr \<Rightarrow>
                         if return_code \<noteq> 0
                         then Some (Inl (new_LoadingPatternError
                                 (nonzero_exit_message env command_args return_code process_stderr)),
                               tr')
                         else Some (Inr process_output', tr')))))"

text \<open>Lines 106-107: \<^verbatim>\<open>except (OSError, ValueError) as e\<close>; any other exception passes.\<close>

fun except_handler :: "env \<Rightarrow> kwargs \<Rightarrow> exn \<Rightarrow> exn" where
  "except_handler env command_args (OSError e) =
     new_LoadingPatternError (execution_failed_message env command_args e)"
| "except_handler env command_args (ValueError e) =
     new_LoadingPatternError (execution_failed_message env command_args e)"
| "except_handler env command_args e = e"

text \<open>Line 68: \<^verbatim>\<open>stream_writer or StreamWriter(sys.stderr)\<close>.\<close>

definition writer_or_stderr :: "writer option \<Rightarrow> writer" where
  "writer_or_stderr stream_writer = (case stream_writer of None \<Rightarrow> StderrWriter | Some sw \<Rightarrow> sw)"

text \<open>Line 71: \<^verbatim>\<open>if not command_args.get("stdout"): command_args["stdout"] = PIPE\<close>.\<close>

definition default_stdout :: "kwargs \<Rightarrow> kwargs" where
  "default_stdout command_args =
     (if \<not> truthy (dict_get command_args ''stdout'' PNone)
      then command_args(''stdout'' \<mapsto> PIPE)
      else command_args)"

text \<open>
  The function itself.  Its result is \<open>None\<close> when the call never returns, and otherwise
  the returned string or the raised exception, with the world the caller finds.
\<close>

definition invoke_subprocess_with_loading_pattern ::
  "env \<Rightarrow> child \<Rightarrow> kwargs \<Rightarrow> (nat \<Rightarrow> exn option) \<Rightarrow> writer option
     \<Rightarrow> ((exn + pystr) \<times> world) option" where
  "invoke_subprocess_with_loading_pattern env ch command_args loading_pattern stream_writer =
     (let w = writer_or_stderr stream_writer;
          args = default_stdout command_args
      in case launch ch args of
           (Inl e, calls) \<Rightarrow>
             Some (Inl (except_handler env args e),
                   \<lparr>args_after = args, popen_calls = calls, trace = []\<rparr>)
         | (Inr process, calls) \<Rightarrow>
             (case with_body env ch args loading_pattern w process of
                None \<Rightarrow> None
              | Some (r, tr) \<Rightarrow>
                  (case popen_exit ch tr of
                     None \<Rightarrow> None
                   | Some tr' \<Rightarrow>
                       Some (case r of Inl e \<Rightarrow> Inl (except_handler env args e) | Inr s \<Rightarrow> Inr s,
                             \<lparr>args_after = args, popen_calls = calls, trace = tr'\<rparr>))))"

text \<open>
  What the call returned or raised, the trace it left, and the \<^verbatim>\<open>stdout\<close> argument of
  each call of \<^verbatim>\<open>Popen\<close> it made.
\<close>

definition outcome :: "((exn + pystr) \<times> world) option \<Rightarrow> (exn + pystr) option" where
  "outcome r = map_option fst r"

definition trace_of :: "((exn + pystr) \<times> world) option \<Rightarrow> event list" where
  "trace_of r = (case r of None \<Rightarrow> [] | Some (x, wd) \<Rightarrow> trace wd)"

definition launched_stdout :: "((exn + pystr) \<times> world) option \<Rightarrow> pyval option list" where
  "launched_stdout r =
     (case r of None \<Rightarrow> [] | Some (x, wd) \<Rightarrow> map (\<lambda>kw. kw ''stdout'') (popen_calls wd))"

text \<open>A text with no brace in it: \<^verbatim>\<open>str.format\<close> leaves it as it is.\<close>

definition brace_free :: "pystr \<Rightarrow> bool" where
  "brace_free s = (0x7B \<notin> set s \<and> 0x7D \<notin> set s)"


subsection \<open>Example runs\<close>

text \<open>
  A concrete world for the examples: a POSIX line separator, \<^verbatim>\<open>str()\<close> for values
  whose strings need no escaping, the text of the \<^verbatim>\<open>UnicodeDecodeError\<close> that
  \<^verbatim>\<open>b"\xff".decode("utf-8")\<close> raises, and a UTF-8 text layer for contents that are
  valid UTF-8 and hold no carriage return.
\<close>

fun join :: "pystr \<Rightarrow> pystr list \<Rightarrow> pystr" where
  "join sep [] = []"
| "join sep [s] = s"
| "join sep (s # t # ss) = s @ sep @ join sep (t # ss)"

fun example_repr :: "pyval \<Rightarrow> pystr" where
  "example_repr PNone = ascii ''None''"
| "example_repr (PBool b) = (if b then ascii ''True'' else ascii ''False'')"
| "example_repr (PInt i) = py_str_int i"
| "example_repr (PStr s) = [0x27] @ s @ [0x27]"
| "example_repr (PList vs) = [0x5B] @ join (ascii '', '') (map example_repr vs) @ [0x5D]"
| "example_repr (PObject n) = ascii ''<object>''"

fun example_str :: "pyval \<Rightarrow> pystr" where
  "example_str (PStr s) = s"
| "example_str v = example_repr v"

definition invalid_start_byte :: pystr where
  "invalid_start_byte =
     [0x27] @ ascii ''utf-8'' @ [0x27] @ ascii '' codec can'' @ [0x27]
       @ ascii ''t decode byte 0xff in position 0: invalid start byte''"

definition example_env :: "int \<Rightarrow> env" where
  "example_env level =
     \<lparr>log_level = level, linesep = [10], py_str = example_str,
      decode_error = (\<lambda>bs. invalid_start_byte)\<rparr>"

definition utf8_text_layer :: "pyval \<Rightarrow> pyval \<Rightarrow> byte list \<Rightarrow> pystr" where
  "utf8_text_layer encoding errors bs = (case utf8_decode bs of None \<Rightarrow> [] | Some s \<Rightarrow> s)"

text \<open>
  A child that is seen running by two polls, then exits; it writes all of its standard
  output before its standard error.
\<close>

definition example_child :: "byte list \<Rightarrow> byte list \<Rightarrow> int \<Rightarrow> child" where
  "example_child out err rc =
     \<lparr>launch_error = None, exits_after = Some 2, returncode = rc, wait_error = None,
      child_stdout = out, child_stderr = err, child_merged = out @ err,
      text_layer = utf8_text_layer\<rparr>"

definition echo_args :: kwargs where
  "echo_args = [''args'' \<mapsto> PList [PStr (ascii ''echo''), PStr (ascii ''hi'')]]"

definition quiet_pattern :: "nat \<Rightarrow> exn option" where
  "quiet_pattern k = None"

text \<open>A loading pattern whose second call raises.\<close>

definition failing_pattern :: "nat \<Rightarrow> exn option" where
  "failing_pattern k = (if k = 1 then Some (OtherError (ascii ''interrupted'')) else None)"

text \<open>An executable named \<^verbatim>\<open>{}\<close> that does not exist.\<close>

definition braces_args :: kwargs where
  "braces_args = [''args'' \<mapsto> PList [PStr (ascii ''{}'')]]"

definition no_such_file :: child where
  "no_such_file =
     \<lparr>launch_error = Some (OSError (ascii ''[Errno 2] No such file or directory: '' @ [0x27]
                                      @ ascii ''{}'' @ [0x27])),
      exits_after = None, returncode = 0, wait_error = None,
      child_stdout = [], child_stderr = [], child_merged = [],
      text_layer = utf8_text_layer\<rparr>"

subsection \<open>Properties\<close>

lemma truthy_PIPE: "truthy PIPE"
  by (simp add: PIPE_def)

text \<open>The indicator loop: it ends when the child does, and it only calls the loading pattern.\<close>

lemma indicator_loop_runs:
  "exits_after ch = Some n \<Longrightarrow> k \<le> n \<Longrightarrow> (\<forall>j. k \<le> j \<and> j < n \<longrightarrow> pat j = None) \<Longrightarrow>
     indicator_loop (poll ch) pat w k tr = Some (None, tr @ replicate (n - k) (PatternCall w))"
proof (induction "n - k" arbitrary: k tr)
  case 0
  then have "poll ch k = Some (returncode ch)" by (simp add: poll_def)
  then show ?case using 0 by (subst indicator_loop.simps) simp
next
  case (Suc m)
  then have kn: "k < n" by simp
  then have p: "poll ch k = None" using Suc.prems by (simp add: poll_def)
  have q: "pat k = None" using Suc.prems kn by simp
  have m: "m = n - Suc k" using Suc.hyps by simp
  have "indicator_loop (poll ch) pat w (Suc k) (tr @ [PatternCall w])
          = Some (None, (tr @ [PatternCall w]) @ replicate (n - Suc k) (PatternCall w))"
    using Suc.hyps(1)[OF m Suc.prems(1)] kn Suc.prems(3) by simp
  moreover have "n - k = Suc (n - Suc k)" using kn by simp
  ultimately show ?case using p q
    by (subst indicator_loop.simps) (simp add: replicate_append_same)
qed

lemma indicator_loop_returns:
  "exits_after ch = Some n \<Longrightarrow> \<exists>e m. indicator_loop (poll ch) pat w k tr = Some (e, tr @ replicate m (PatternCall w))"
proof (induction "n - k" arbitrary: k tr)
  case 0
  then have "poll ch k = Some (returncode ch)" by (simp add: poll_def)
  then have "indicator_loop (poll ch) pat w k tr = Some (None, tr @ replicate 0 (PatternCall w))"
    by (subst indicator_loop.simps) simp
  then show ?case by blast
next
  case (Suc m)
  then have kn: "k < n" by simp
  then have p: "poll ch k = None" using Suc.prems by (simp add: poll_def)
  show ?case
  proof (cases "pat k")
    case None
    have m: "m = n - Suc k" using Suc.hyps by simp
    obtain e j where "indicator_loop (poll ch) pat w (Suc k) (tr @ [PatternCall w])
          = Some (e, (tr @ [PatternCall w]) @ replicate j (PatternCall w))"
      using Suc.hyps(1)[OF m Suc.prems(1)] by blast
    then have "indicator_loop (poll ch) pat w k tr = Some (e, tr @ replicate (Suc j) (PatternCall w))"
      using p None by (subst indicator_loop.simps) simp
    then show ?thesis by blast
  next
    case (Some x)
    then have "indicator_loop (poll ch) pat w k tr = Some (Some x, tr @ replicate (Suc 0) (PatternCall w))"
      using p by (subst indicator_loop.simps) simp
    then show ?thesis by blast
  qed
qed

lemma indicator_loop_trace:
  assumes "indicator_loop pl pat w k tr = Some y"
  shows "\<exists>m. snd y = tr @ replicate m (PatternCall w)"
proof (rule indicator_loop.raw_induct[where P = "\<lambda>pl pat w k tr y. \<exists>m. snd y = tr @ replicate m (PatternCall w)", OF _ assms])
  fix f :: "(nat \<Rightarrow> int option) \<Rightarrow> (nat \<Rightarrow> exn option) \<Rightarrow> writer \<Rightarrow> nat \<Rightarrow> event list
             \<Rightarrow> (exn option \<times> event list) option"
    and pl :: "nat \<Rightarrow> int option" and pat :: "nat \<Rightarrow> exn option" and w :: writer and k :: nat
    and tr :: "event list" and y :: "exn option \<times> event list"
  assume IH: "\<And>pl pat w k tr y. f pl pat w k tr = Some y \<Longrightarrow> \<exists>m. snd y = tr @ replicate m (PatternCall w)"
  assume step: "(if pl k = None
        then case pat k of None \<Rightarrow> f pl pat w (Suc k) (tr @ [PatternCall w])
             | Some e \<Rightarrow> Some (Some e, tr @ [PatternCall w])
        else Some (None, tr)) = Some y"
  show "\<exists>m. snd y = tr @ replicate m (PatternCall w)"
  proof (cases "pl k = None")
    case True
    show ?thesis
    proof (cases "pat k")
      case None
      with True step have "f pl pat w (Suc k) (tr @ [PatternCall w]) = Some y" by simp
      from IH[OF this] obtain m where "snd y = (tr @ [PatternCall w]) @ replicate m (PatternCall w)" by blast
      then have "snd y = tr @ replicate (Suc m) (PatternCall w)" by simp
      then show ?thesis by blast
    next
      case (Some x)
      with True step have "snd y = tr @ replicate (Suc 0) (PatternCall w)" by auto
      then show ?thesis by blast
    qed
  next
    case False
    with step have "snd y = tr @ replicate 0 (PatternCall w)" by auto
    then show ?thesis by blast
  qed
qed

text \<open>Formatting, the stream loop and the observation as a whole.\<close>

lemma str_format_brace_free: "brace_free s \<Longrightarrow> str_format s v = Inr s"
  by (induction s v rule: str_format.induct) (auto simp: brace_free_def emit_def)

lemma nat_digits_range: "\<forall>c \<in> set (nat_digits n). 48 \<le> c \<and> c \<le> 57"
proof (induction n rule: nat_digits.induct)
  case (1 n)
  show ?case
  proof (cases "n < 10")
    case True
    then show ?thesis by (subst nat_digits.simps) simp
  next
    case False
    have "n mod 10 < 10" by simp
    then have "48 + n mod 10 \<le> 57" by linarith
    with False 1 show ?thesis by (subst nat_digits.simps) auto
  qed
qed

lemma brace_free_py_str_int: "brace_free (py_str_int i)"
  using nat_digits_range[of "nat (- i)"] nat_digits_range[of "nat i"]
  by (fastforce simp: brace_free_def py_str_int_def)

lemma brace_free_append: "brace_free (s @ t) = (brace_free s \<and> brace_free t)"
  by (auto simp: brace_free_def)

lemma brace_free_ascii1: "brace_free (ascii ''Failed to execute the subprocess. '')"
  by (simp add: brace_free_def ascii_def)
lemma brace_free_ascii2: "brace_free (ascii ''The process '')"
  by (simp add: brace_free_def ascii_def)
lemma brace_free_ascii3: "brace_free (ascii '' returned a non-zero exit code '')"
  by (simp add: brace_free_def ascii_def)
lemma brace_free_ascii4: "brace_free (ascii ''. '')"
  by (simp add: brace_free_def ascii_def)
lemma brace_free_ascii5: "brace_free (ascii ''Subprocess execution failed '')"
  by (simp add: brace_free_def ascii_def)

lemma new_LoadingPatternError_brace_free:
  "brace_free ex \<Longrightarrow>
     new_LoadingPatternError ex = LoadingPatternError (ascii ''Failed to execute the subprocess. '' @ ex)"
  by (simp add: new_LoadingPatternError_def str_format_brace_free brace_free_append brace_free_ascii1)

lemma stream_loop_ok:
  "map (check_and_process_bytes env) ls = map Inr ds \<Longrightarrow>
     stream_loop env ls acc tr = (Inr (acc @ concat ds), tr @ map LogDebug ds)"
proof (induction ls arbitrary: ds acc tr)
  case Nil
  then show ?case by simp
next
  case (Cons l ls)
  then obtain d ds' where ds: "ds = d # ds'" "check_and_process_bytes env l = Inr d"
      "map (check_and_process_bytes env) ls = map Inr ds'"
    by (cases ds) auto
  show ?case using Cons.IH[OF ds(3)] ds(1,2) by simp
qed

lemma stream_loop_trace:
  "\<exists>ds. snd (stream_loop env ls acc tr) = tr @ map LogDebug ds"
proof (induction ls arbitrary: acc tr)
  case Nil
  have "snd (stream_loop env [] acc tr) = tr @ map LogDebug []" by simp
  then show ?case by blast
next
  case (Cons l ls)
  show ?case
  proof (cases "check_and_process_bytes env l")
    case (Inl e)
    then have "snd (stream_loop env (l # ls) acc tr) = tr @ map LogDebug []" by simp
    then show ?thesis by blast
  next
    case (Inr d)
    obtain ds where "snd (stream_loop env ls (acc @ d) (tr @ [LogDebug d])) = (tr @ [LogDebug d]) @ map LogDebug ds"
      using Cons.IH by blast
    then have "snd (stream_loop env (l # ls) acc tr) = tr @ map LogDebug (d # ds)"
      using Inr by simp
    then show ?thesis by blast
  qed
qed

lemma check_and_process_bytes_at_eof: "check_and_process_bytes env (at_eof s) = Inr []"
  by (cases s) (simp_all add: check_and_process_bytes_def py_strip_def py_lstrip_def py_rstrip_def)

lemma observe_indicator:
  assumes "INFO \<le> log_level env" "exits_after ch = Some n" "\<forall>j<n. pat j = None"
  shows "observe env ch pat w p = Some (Inr ([], p), replicate n (PatternCall w))"
  using indicator_loop_runs[OF assms(2), of 0 pat w "[]"] assms(1,3)
  by (simp add: observe_def)

lemma observe_stream_piped:
  assumes "log_level env < INFO" "stdout p = Some s"
    "map (check_and_process_bytes env) (file_lines s) = map Inr ds"
  shows "observe env ch pat w p = Some (Inr (concat ds, p\<lparr>stdout := Some (at_eof s)\<rparr>), map LogDebug ds)"
  using stream_loop_ok[OF assms(3), of "[]" "[]"] assms(1,2)
  by (simp add: observe_def)

lemma observe_stream_unpiped:
  assumes "log_level env < INFO" "stdout p = None"
  shows "observe env ch pat w p = Some (Inr ([], p), [])"
  using assms by (simp add: observe_def)

lemma observe_trace:
  assumes "observe env ch pat w p = Some (r, tr)"
  shows "filter sink_event tr = [] \<and> count_list tr Released = 0"
proof (cases "INFO \<le> log_level env")
  case True
  then obtain y where y: "indicator_loop (poll ch) pat w 0 [] = Some y" "snd y = tr"
    using assms by (auto simp: observe_def split: option.splits prod.splits)
  from indicator_loop_trace[OF y(1)] y(2) obtain m where "tr = replicate m (PatternCall w)" by auto
  then show ?thesis by (simp add: count_list_0_iff)
next
  case False
  show ?thesis
  proof (cases "stdout p")
    case None
    with False assms show ?thesis by (simp add: observe_def)
  next
    case (Some s)
    with False assms have "tr = snd (stream_loop env (file_lines s) [] [])"
      by (auto simp: observe_def split: prod.splits sum.splits)
    with stream_loop_trace[of env "file_lines s" "[]" "[]"] obtain ds where "tr = map LogDebug ds" by auto
    then show ?thesis by (auto simp: count_list_0_iff filter_empty_conv)
  qed
qed

lemma observe_returns:
  assumes "exits_after ch = Some n"
  shows "\<exists>y. observe env ch pat w p = Some y"
proof -
  obtain e m where "indicator_loop (poll ch) pat w 0 [] = Some (e, [] @ replicate m (PatternCall w))"
    using indicator_loop_returns[OF assms, of pat w 0 "[]"] by blast
  then show ?thesis
    by (cases e) (auto simp: observe_def split: option.splits prod.splits sum.splits)
qed

text \<open>The body of the \<^verbatim>\<open>with\<close> block and the call as a whole.\<close>

lemma with_body_trace:
  assumes "with_body env ch args pat w p = Some (r, tr)"
  shows "count_list tr Released = 0"
proof -
  obtain x tr0 where o: "observe env ch pat w p = Some (x, tr0)"
    using assms by (auto simp: with_body_def split: option.splits)
  have t0: "count_list tr0 Released = 0" using observe_trace[OF o] by simp
  have "tr = tr0 \<or> tr = tr0 @ [SinkWrite w (linesep env), SinkFlush w]"
    using assms o
    by (auto simp: with_body_def Let_def split: option.splits sum.splits prod.splits if_splits)
  then show ?thesis using t0 by auto
qed

lemma with_body_returns:
  assumes "exits_after ch = Some n"
  shows "\<exists>y. with_body env ch args pat w p = Some y"
proof -
  obtain y where "observe env ch pat w p = Some y" using observe_returns[OF assms] by blast
  moreover have "wait ch \<noteq> None" using assms by (simp add: wait_def split: option.splits)
  ultimately show ?thesis
    by (auto simp: with_body_def Let_def split: option.splits sum.splits prod.splits)
qed

lemma with_body_ok:
  assumes "observe env ch pat w p = Some (Inr (out, p'), tr)"
    and "wait ch = Some (Inr rc)"
    and "(if out = [] then check_and_convert_stream_to_string env (stdout p') else Inr out) = Inr out'"
    and "check_and_convert_stream_to_string env (stderr p') = Inr err"
  shows "with_body env ch args pat w p =
           Some (if rc \<noteq> 0 then Inl (new_LoadingPatternError (nonzero_exit_message env args rc err))
                 else Inr out',
                 tr @ [SinkWrite w (linesep env), SinkFlush w])"
  using assms by (simp add: with_body_def Let_def)

lemma invoke_launched:
  assumes "Popen ch (default_stdout args) = Inr p"
    and "with_body env ch (default_stdout args) pat (writer_or_stderr sw) p = Some (r, tr)"
    and "exits_after ch = Some n"
  shows "invoke_subprocess_with_loading_pattern env ch args pat sw =
           Some (case r of Inl e \<Rightarrow> Inl (except_handler env (default_stdout args) e) | Inr s \<Rightarrow> Inr s,
                 \<lparr>args_after = default_stdout args, popen_calls = [default_stdout args],
                  trace = tr @ [Released]\<rparr>)"
  using assms
  by (simp add: invoke_subprocess_with_loading_pattern_def Let_def popen_exit_def launch_def)

lemma invoke_world:
  assumes "invoke_subprocess_with_loading_pattern env ch args pat sw = Some (r, wd)"
  shows "args_after wd = default_stdout args \<and> popen_calls wd = [default_stdout args]"
  using assms
  by (auto simp: invoke_subprocess_with_loading_pattern_def Let_def launch_def
      split: sum.splits option.splits prod.splits)

lemma invoke_released:
  assumes "invoke_subprocess_with_loading_pattern env ch args pat sw = Some (r, wd)"
  shows "count_list (trace wd) Released = (if launch_error ch = None then 1 else 0)"
proof (cases "launch_error ch")
  case None
  then obtain p where p: "Popen ch (default_stdout args) = Inr p" by (simp add: Popen_def)
  then obtain x tr where b: "with_body env ch (default_stdout args) pat (writer_or_stderr sw) p = Some (x, tr)"
    and t: "trace wd = tr @ [Released]"
    using assms
    by (auto simp: invoke_subprocess_with_loading_pattern_def Let_def popen_exit_def launch_def
        split: option.splits prod.splits)
  show ?thesis using with_body_trace[OF b] t None by simp
next
  case (Some e)
  then have "Popen ch (default_stdout args) = Inl e" by (simp add: Popen_def)
  then have "trace wd = []" using assms
    by (auto simp: invoke_subprocess_with_loading_pattern_def Let_def launch_def)
  then show ?thesis using Some by simp
qed

lemma invoke_returns:
  assumes "exits_after ch = Some n"
  shows "\<exists>y. invoke_subprocess_with_loading_pattern env ch args pat sw = Some y"
proof (cases "Popen ch (default_stdout args)")
  case (Inl e)
  then show ?thesis by (simp add: invoke_subprocess_with_loading_pattern_def Let_def launch_def)
next
  case (Inr p)
  obtain y where "with_body env ch (default_stdout args) pat (writer_or_stderr sw) p = Some y"
    using with_body_returns[OF assms] by blast
  then show ?thesis using Inr assms
    by (cases y) (simp add: invoke_subprocess_with_loading_pattern_def Let_def popen_exit_def launch_def)
qed

lemma invoke_launch_failed:
  assumes "launch_error ch = Some e"
  shows "invoke_subprocess_with_loading_pattern env ch args pat sw =
           Some (Inl (except_handler env (default_stdout args) e),
                 \<lparr>args_after = default_stdout args, popen_calls = [default_stdout args], trace = []\<rparr>)"
  using assms by (simp add: invoke_subprocess_with_loading_pattern_def Let_def Popen_def launch_def)

text \<open>Decoding commutes with cutting into lines: no byte of a multi-byte sequence is a newline.\<close>

lemma split_lines_prepend:
  "nl \<notin> set c \<Longrightarrow> c \<noteq> [] \<Longrightarrow>
     split_lines nl (c @ r) = (case split_lines nl r of [] \<Rightarrow> [c] | l # ls \<Rightarrow> (c @ l) # ls)"
proof (induction c)
  case Nil
  then show ?case by simp
next
  case (Cons x c)
  show ?case
  proof (cases "c = []")
    case True
    with Cons.prems show ?thesis by (simp split: list.splits)
  next
    case False
    with Cons show ?thesis by (simp split: list.splits)
  qed
qed

lemma utf8_decode_step:
  assumes "utf8_decode bs = Some t" "bs \<noteq> []"
  shows "\<exists>c r d t'. bs = c @ r \<and> c \<noteq> [] \<and> t = d # t' \<and> utf8_decode r = Some t'
           \<and> (\<forall>l. utf8_decode (c @ l) = map_option ((#) d) (utf8_decode l))
           \<and> ((c = [0x0A] \<and> d = 10) \<or> (0x0A \<notin> set c \<and> d \<noteq> 10))"
proof -
  obtain b bs' where bs: "bs = b # bs'" using assms(2) by (cases bs) auto
  let ?n = "unat b"
  consider (one) "?n < 0x80" | (two) "0xC2 \<le> ?n \<and> ?n \<le> 0xDF" | (three) "0xE0 \<le> ?n \<and> ?n \<le> 0xEF"
    | (four) "0xF0 \<le> ?n \<and> ?n \<le> 0xF4" | (bad) "\<not> ?n < 0x80 \<and> \<not> (0xC2 \<le> ?n \<and> ?n \<le> 0xDF) \<and> \<not> (0xE0 \<le> ?n \<and> ?n \<le> 0xEF) \<and> \<not> (0xF0 \<le> ?n \<and> ?n \<le> 0xF4)"
    by linarith
  then show ?thesis
  proof cases
    case one
    then obtain t' where t: "utf8_decode bs' = Some t'" "t = ?n # t'"
      using assms(1) bs by (auto simp: Let_def)
    have all: "\<forall>l. utf8_decode ([b] @ l) = map_option ((#) ?n) (utf8_decode l)"
      using one by (simp add: Let_def)
    have nl: "([b] = [0x0A] \<and> ?n = 10) \<or> (0x0A \<notin> set [b] \<and> ?n \<noteq> 10)"
    proof (cases "b = 0x0A")
      case True
      then show ?thesis by simp
    next
      case False
      then have "?n \<noteq> 10" by (simp add: word_unat_eq_iff)
      with False show ?thesis by simp
    qed
    show ?thesis
      apply (rule exI[of _ "[b]"], rule exI[of _ bs'], rule exI[of _ ?n], rule exI[of _ t'])
      using bs t all nl by simp
  next
    case two
    then obtain b1 r where r: "bs' = b1 # r" "continuation b1"
      using assms(1) bs by (cases bs') (auto simp: Let_def split: if_splits)
    define d where "d = (?n - 0xC0) * 64 + (unat b1 - 0x80)"
    obtain t' where t: "utf8_decode r = Some t'" "t = d # t'"
      using assms(1) bs r two by (auto simp: Let_def d_def)
    have all: "\<forall>l. utf8_decode ([b, b1] @ l) = map_option ((#) d) (utf8_decode l)"
      using two r(2) by (simp add: Let_def d_def)
    have "b \<noteq> 0x0A" "b1 \<noteq> 0x0A" using two r(2) by (auto simp: continuation_def)
    moreover have "d \<noteq> 10"
    proof -
      have "2 \<le> ?n - 0xC0" using two by linarith
      then have "2 * 64 \<le> (?n - 0xC0) * 64" by (rule mult_le_mono1)
      then show ?thesis by (simp add: d_def)
    qed
    ultimately have nl: "0x0A \<notin> set [b, b1] \<and> d \<noteq> 10" by simp
    show ?thesis
      apply (rule exI[of _ "[b, b1]"], rule exI[of _ r], rule exI[of _ d], rule exI[of _ t'])
      using bs r t all nl by simp
  next
    case three
    then obtain b1 b2 r where r: "bs' = b1 # b2 # r" "continuation b1" "continuation b2"
        "if ?n = 0xE0 then 0xA0 \<le> unat b1 else True" "if ?n = 0xED then unat b1 \<le> 0x9F else True"
      using assms(1) bs by (cases bs'; cases "tl bs'") (auto simp: Let_def split: if_splits)
    define d where "d = (?n - 0xE0) * 4096 + (unat b1 - 0x80) * 64 + (unat b2 - 0x80)"
    obtain t' where t: "utf8_decode r = Some t'" "t = d # t'"
      using assms(1) bs r three by (auto simp: Let_def d_def split: if_splits)
    have all: "\<forall>l. utf8_decode ([b, b1, b2] @ l) = map_option ((#) d) (utf8_decode l)"
      using three r(2-5) by (simp add: Let_def d_def)
    have "b \<noteq> 0x0A" "b1 \<noteq> 0x0A" "b2 \<noteq> 0x0A" using three r(2,3) by (auto simp: continuation_def)
    moreover have "d \<noteq> 10"
    proof (cases "?n = 0xE0")
      case True
      then have "0xA0 \<le> unat b1" using r(4) by simp
      then have "0x20 \<le> unat b1 - 0x80" by linarith
      then have "0x20 * 64 \<le> (unat b1 - 0x80) * 64" by (rule mult_le_mono1)
      then show ?thesis by (simp add: d_def)
    next
      case False
      then have "1 \<le> ?n - 0xE0" using three by linarith
      then have "1 * 4096 \<le> (?n - 0xE0) * 4096" by (rule mult_le_mono1)
      then show ?thesis by (simp add: d_def)
    qed
    ultimately have nl: "0x0A \<notin> set [b, b1, b2] \<and> d \<noteq> 10" by simp
    show ?thesis
      apply (rule exI[of _ "[b, b1, b2]"], rule exI[of _ r], rule exI[of _ d], rule exI[of _ t'])
      using bs r(1) t all nl by simp
  next
    case four
    then obtain b1 b2 b3 r where r: "bs' = b1 # b2 # b3 # r" "continuation b1" "continuation b2"
        "continuation b3"
        "if ?n = 0xF0 then 0x90 \<le> unat b1 else True" "if ?n = 0xF4 then unat b1 \<le> 0x8F else True"
      using assms(1) bs by (cases bs'; cases "tl bs'"; cases "tl (tl bs')") (auto simp: Let_def split: if_splits)
    define d where "d = (?n - 0xF0) * 262144 + (unat b1 - 0x80) * 4096
                          + (unat b2 - 0x80) * 64 + (unat b3 - 0x80)"
    obtain t' where t: "utf8_decode r = Some t'" "t = d # t'"
      using assms(1) bs r four by (auto simp: Let_def d_def split: if_splits)
    have all: "\<forall>l. utf8_decode ([b, b1, b2, b3] @ l) = map_option ((#) d) (utf8_decode l)"
      using four r(2-6) by (simp add: Let_def d_def)
    have "b \<noteq> 0x0A" "b1 \<noteq> 0x0A" "b2 \<noteq> 0x0A" "b3 \<noteq> 0x0A"
      using four r(2,3,4) by (auto simp: continuation_def)
    moreover have "d \<noteq> 10"
    proof (cases "?n = 0xF0")
      case True
      then have "0x90 \<le> unat b1" using r(5) by simp
      then have "0x10 \<le> unat b1 - 0x80" by linarith
      then have "0x10 * 4096 \<le> (unat b1 - 0x80) * 4096" by (rule mult_le_mono1)
      then show ?thesis by (simp add: d_def)
    next
      case False
      then have "1 \<le> ?n - 0xF0" using four by linarith
      then have "1 * 262144 \<le> (?n - 0xF0) * 262144" by (rule mult_le_mono1)
      then show ?thesis by (simp add: d_def)
    qed
    ultimately have nl: "0x0A \<notin> set [b, b1, b2, b3] \<and> d \<noteq> 10" by simp
    show ?thesis
      apply (rule exI[of _ "[b, b1, b2, b3]"], rule exI[of _ r], rule exI[of _ d], rule exI[of _ t'])
      using bs r(1) t all nl by simp
  next
    case bad
    then have "utf8_decode (b # bs') = None" by (auto simp: Let_def)
    then show ?thesis using assms(1) bs by simp
  qed
qed

lemma utf8_decode_lines:
  "utf8_decode bs = Some t \<Longrightarrow>
     map utf8_decode (split_lines 0x0A bs) = map Some (split_lines 10 t)"
proof (induction "length bs" arbitrary: bs t rule: less_induct)
  case less
  show ?case
  proof (cases "bs = []")
    case True
    with less.prems show ?thesis by simp
  next
    case False
    from utf8_decode_step[OF less.prems False]
    obtain c r d t' where s: "bs = c @ r" "c \<noteq> []" "t = d # t'" "utf8_decode r = Some t'"
        "\<forall>l. utf8_decode (c @ l) = map_option ((#) d) (utf8_decode l)"
        "(c = [0x0A] \<and> d = 10) \<or> (0x0A \<notin> set c \<and> d \<noteq> 10)"
      by blast
    have "length r < length bs" using s(1,2) by simp
    from less.hyps[OF this s(4)]
    have IH: "map utf8_decode (split_lines 0x0A r) = map Some (split_lines 10 t')" .
    have c1: "utf8_decode c = Some [d]" using s(5)[rule_format, of "[]"] by simp
    from s(6) show ?thesis
    proof
      assume "c = [0x0A] \<and> d = 10"
      then show ?thesis using s(1,3) IH c1 by simp
    next
      assume n: "0x0A \<notin> set c \<and> d \<noteq> 10"
      have sl: "split_lines 0x0A bs = (case split_lines 0x0A r of [] \<Rightarrow> [c] | l # ls \<Rightarrow> (c @ l) # ls)"
        using split_lines_prepend[of "0x0A" c r] n s(1,2) by simp
      show ?thesis
      proof (cases "split_lines 0x0A r")
        case Nil
        then have "split_lines 10 t' = []" using IH by simp
        then show ?thesis using sl Nil s(3) n c1 by simp
      next
        case (Cons l ls)
        then obtain l' ls' where l': "split_lines 10 t' = l' # ls'" "utf8_decode l = Some l'"
            "map utf8_decode ls = map Some ls'"
          using IH by (cases "split_lines 10 t'") auto
        have "utf8_decode (c @ l) = Some (d # l')" using s(5) l'(2) by simp
        then show ?thesis using sl Cons s(3) n l' by simp
      qed
    qed
  qed
qed

text \<open>The definitions an example run unfolds.\<close>

lemmas run_defs =
  invoke_subprocess_with_loading_pattern_def Let_def default_stdout_def dict_get_def
  writer_or_stderr_def Popen_def launch_def text_mode_def pipe_end_def STDOUT_def
  utf8_text_layer_def launched_stdout_def with_body_def observe_def INFO_def indicator_loop.simps
  poll_def wait_def PIPE_def DEVNULL_def popen_exit_def check_and_convert_stream_to_string_def
  check_and_process_bytes_def py_strip_def py_lstrip_def py_rstrip_def py_isspace_def
  continuation_def outcome_def trace_of_def
  example_env_def example_child_def echo_args_def quiet_pattern_def

text \<open>What \<^verbatim>\<open>strip\<close> leaves, and the trace of a run whose loop and wait succeed.\<close>

lemma py_strip_spec:
  "\<exists>l r. s = l @ py_strip s @ r \<and> list_all py_isspace l \<and> list_all py_isspace r
         \<and> (py_strip s = [] \<or> (\<not> py_isspace (hd (py_strip s)) \<and> \<not> py_isspace (last (py_strip s))))"
proof -
  define mid where "mid = py_rstrip s"
  define r where "r = rev (takeWhile py_isspace (rev s))"
  define l where "l = takeWhile py_isspace mid"
  have "rev (dropWhile py_isspace (rev s)) @ rev (takeWhile py_isspace (rev s))
          = rev (takeWhile py_isspace (rev s) @ dropWhile py_isspace (rev s))"
    by (simp only: rev_append)
  also have "\<dots> = s" by (simp only: takeWhile_dropWhile_id rev_rev_ident)
  finally have s: "s = mid @ r" by (simp only: mid_def r_def py_rstrip_def)
  have m: "mid = l @ py_strip s" by (simp add: l_def py_strip_def py_lstrip_def mid_def)
  have sl: "list_all py_isspace l" by (auto simp: l_def list_all_iff dest: set_takeWhileD)
  have sr: "list_all py_isspace r" by (auto simp: r_def list_all_iff dest: set_takeWhileD)
  have e: "\<not> py_isspace (hd (py_strip s)) \<and> \<not> py_isspace (last (py_strip s))" if ne: "py_strip s \<noteq> []"
  proof
    show "\<not> py_isspace (hd (py_strip s))"
      using ne hd_dropWhile[of py_isspace "py_rstrip s"] by (simp add: py_strip_def py_lstrip_def)
    have "last mid = last (py_strip s)" using m ne by simp
    moreover have "mid \<noteq> []" using m ne by simp
    then have d: "dropWhile py_isspace (rev s) \<noteq> []" by (simp add: mid_def py_rstrip_def)
    then have "last mid = hd (dropWhile py_isspace (rev s))"
      by (simp add: mid_def py_rstrip_def last_rev)
    ultimately show "\<not> py_isspace (last (py_strip s))" using hd_dropWhile[OF d] by simp
  qed
  show ?thesis using s m sl sr e by (metis append.assoc)
qed

lemma with_body_sink:
  assumes "observe env ch pat w p = Some (Inr (out, p'), tr)"
    and "wait ch = Some (Inr rc)"
  shows "\<exists>r. with_body env ch args pat w p = Some (r, tr @ [SinkWrite w (linesep env), SinkFlush w])"
  using assms by (simp add: with_body_def Let_def split: sum.splits)


lemma split_lines_nonempty: "l \<in> set (split_lines nl xs) \<Longrightarrow> l \<noteq> []"
  by (induction xs arbitrary: l) (auto split: list.splits if_splits)

lemma popen_piped:
  assumes "launch_error ch = None" "kw ''stdout'' = Some PIPE"
  shows "Popen ch kw =
           Inr \<lparr>stdout = Some (pipe_end ch kw
                     (if kw ''stderr'' = Some STDOUT then child_merged ch else child_stdout ch)),
                stderr = (if kw ''stderr'' = Some PIPE then Some (pipe_end ch kw (child_stderr ch))
                          else None)\<rparr>"
  using assms by (simp add: Popen_def)

lemma text_mode_default_stdout: "text_mode (default_stdout args) = text_mode args"
  by (simp add: text_mode_def dict_get_def default_stdout_def)

lemma pipe_end_default_stdout: "pipe_end ch (default_stdout args) bs = pipe_end ch args bs"
  by (simp add: pipe_end_def text_mode_default_stdout) (simp add: dict_get_def default_stdout_def)

lemma default_stdout_other: "k \<noteq> ''stdout'' \<Longrightarrow> default_stdout args k = args k"
  by (simp add: default_stdout_def)

lemma dict_get_default_stdout: "dict_get (default_stdout args) ''args'' d = dict_get args ''args'' d"
  by (simp add: dict_get_def default_stdout_def)

text \<open>A run whose loop and wait succeed, and a launch that fails.\<close>

lemma invoke_completes:
  assumes "Popen ch (default_stdout args) = Inr p"
    and "observe env ch pat (writer_or_stderr sw) p = Some (Inr (out, p'), tr)"
    and "wait ch = Some (Inr rc)"
    and "(if out = [] then check_and_convert_stream_to_string env (stdout p') else Inr out) = Inr out'"
    and "check_and_convert_stream_to_string env (stderr p') = Inr err"
  shows "outcome (invoke_subprocess_with_loading_pattern env ch args pat sw) =
           Some (if rc \<noteq> 0
                 then Inl (except_handler env (default_stdout args)
                        (new_LoadingPatternError (nonzero_exit_message env (default_stdout args) rc err)))
                 else Inr out')"
proof -
  obtain n where n: "exits_after ch = Some n"
    using assms(3) by (auto simp: wait_def split: option.splits)
  from invoke_launched[OF assms(1) with_body_ok[OF assms(2-5)] n]
  show ?thesis by (simp add: outcome_def)
qed

lemma observe_keeps_stderr:
  assumes "observe env ch pat w p = Some (Inr (out, p'), tr)"
  shows "stderr p' = stderr p"
  using assms
  by (auto simp: observe_def split: if_splits option.splits prod.splits sum.splits)

lemma poll_child_stderr: "poll (ch\<lparr>child_stderr := e\<rparr>) = poll ch"
  by (rule ext) (simp add: poll_def split: option.splits)

lemma except_handler_LoadingPatternError:
  "except_handler env kw (LoadingPatternError m) = LoadingPatternError m"
  by simp

lemma nonzero_exit_message_brace_free:
  assumes "brace_free (py_str env (dict_get args ''args'' (PList [])))" "brace_free err"
  shows "brace_free (nonzero_exit_message env (default_stdout args) rc err)"
  using assms
  by (simp add: nonzero_exit_message_def dict_get_default_stdout brace_free_append
      brace_free_ascii2 brace_free_ascii3 brace_free_ascii4 brace_free_py_str_int)

lemma launch_failure_wrapped:
  assumes "launch_error ch = Some (OSError e)"
    and "brace_free (py_str env (dict_get args ''args'' (PList [])))" and "brace_free e"
  shows "outcome (invoke_subprocess_with_loading_pattern env ch args pat sw) =
           Some (Inl (LoadingPatternError
             (ascii ''Failed to execute the subprocess. Subprocess execution failed ''
               @ py_str env (dict_get args ''args'' (PList [])) @ ascii ''. '' @ e)))"
proof -
  have "brace_free (execution_failed_message env (default_stdout args) e)"
    using assms(2,3)
    by (simp add: execution_failed_message_def dict_get_default_stdout brace_free_append
        brace_free_ascii4 brace_free_ascii5)
  from new_LoadingPatternError_brace_free[OF this] invoke_launch_failed[OF assms(1)]
  show ?thesis
    by (simp add: outcome_def execution_failed_message_def dict_get_default_stdout ascii_def)
qed

lemma wait_failure_wrapped:
  assumes "Popen ch (default_stdout args) = Inr p"
    and "observe env ch pat (writer_or_stderr sw) p = Some (Inr (out, p'), tr)"
    and "wait ch = Some (Inl (OSError e))"
    and "brace_free (py_str env (dict_get args ''args'' (PList [])))" and "brace_free e"
  shows "outcome (invoke_subprocess_with_loading_pattern env ch args pat sw) =
           Some (Inl (LoadingPatternError
             (ascii ''Failed to execute the subprocess. Subprocess execution failed ''
               @ py_str env (dict_get args ''args'' (PList [])) @ ascii ''. '' @ e)))"
proof -
  obtain n where n: "exits_after ch = Some n"
    using assms(3) by (auto simp: wait_def split: option.splits)
  have b: "with_body env ch (default_stdout args) pat (writer_or_stderr sw) p = Some (Inl (OSError e), tr)"
    using assms(2,3) by (simp add: with_body_def)
  have "brace_free (execution_failed_message env (default_stdout args) e)"
    using assms(4,5)
    by (simp add: execution_failed_message_def dict_get_default_stdout brace_free_append
        brace_free_ascii4 brace_free_ascii5)
  from new_LoadingPatternError_brace_free[OF this] invoke_launched[OF assms(1) b n]
  show ?thesis
    by (simp add: outcome_def execution_failed_message_def dict_get_default_stdout ascii_def)
qed

text \<open>The process a launch gives, and the default applied twice.\<close>

lemma popen_binary:
  assumes "launch_error ch = None" and "default_stdout args ''stdout'' = Some PIPE"
    and "\<not> text_mode args" and "args ''stderr'' \<noteq> Some STDOUT"
  shows "Popen ch (default_stdout args) =
           Inr \<lparr>stdout = Some (Bytes (child_stdout ch)),
                stderr = (if args ''stderr'' = Some PIPE then Some (Bytes (child_stderr ch)) else None)\<rparr>"
proof -
  have "Popen ch (default_stdout args) =
           Inr \<lparr>stdout = Some (pipe_end ch args (child_stdout ch)),
                stderr = (if args ''stderr'' = Some PIPE then Some (pipe_end ch args (child_stderr ch))
                          else None)\<rparr>"
    using popen_piped[of ch "default_stdout args", OF assms(1,2)] assms(4)
    by (simp add: default_stdout_other pipe_end_default_stdout)
  then show ?thesis using assms(3) by (simp add: pipe_end_def)
qed





lemma stderr_capture_ok:
  assumes "args ''stderr'' = Some PIPE \<Longrightarrow> \<not> text_mode args \<Longrightarrow> utf8_decode (child_stderr ch) \<noteq> None"
  shows "\<exists>err. check_and_convert_stream_to_string env
           (if args ''stderr'' = Some PIPE then Some (pipe_end ch args (child_stderr ch)) else None)
         = Inr err"
proof (cases "args ''stderr'' = Some PIPE \<and> \<not> text_mode args")
  case True
  then obtain E where "utf8_decode (child_stderr ch) = Some E" using assms by auto
  then show ?thesis using True
    by (simp add: check_and_convert_stream_to_string_def check_and_process_bytes_def pipe_end_def)
next
  case False
  then show ?thesis
    by (auto simp: check_and_convert_stream_to_string_def check_and_process_bytes_def pipe_end_def)
qed

lemma popen_stdout_piped:
  assumes "launch_error ch = None" and "default_stdout args ''stdout'' = Some PIPE"
    and "args ''stderr'' \<noteq> Some STDOUT"
  shows "Popen ch (default_stdout args) =
           Inr \<lparr>stdout = Some (pipe_end ch args (child_stdout ch)),
                stderr = (if args ''stderr'' = Some PIPE then Some (pipe_end ch args (child_stderr ch))
                          else None)\<rparr>"
  using popen_piped[of ch "default_stdout args", OF assms(1,2)] assms(3)
  by (simp add: default_stdout_other pipe_end_default_stdout)

lemma streamed_outcome:
  assumes "log_level env < INFO"
    and "launch_error ch = None" and "exits_after ch = Some n" and "wait_error ch = None"
    and "returncode ch = 0"
    and "default_stdout args ''stdout'' = Some PIPE"
    and "args ''stderr'' \<noteq> Some STDOUT"
    and "args ''stderr'' = Some PIPE \<Longrightarrow> \<not> text_mode args \<Longrightarrow> utf8_decode (child_stderr ch) \<noteq> None"
    and "map (check_and_process_bytes env) (file_lines (pipe_end ch args (child_stdout ch))) = map Inr ds"
  shows "outcome (invoke_subprocess_with_loading_pattern env ch args pat sw) = Some (Inr (concat ds))"
proof -
  let ?kw = "default_stdout args"
  let ?s = "pipe_end ch args (child_stdout ch)"
  let ?p = "\<lparr>stdout = Some ?s,
            stderr = (if args ''stderr'' = Some PIPE then Some (pipe_end ch args (child_stderr ch))
                      else None)\<rparr>"
  let ?w = "writer_or_stderr sw"
  have po: "Popen ch ?kw = Inr ?p" by (rule popen_stdout_piped[OF assms(2,6,7)])
  have wt: "wait ch = Some (Inr 0)" using assms(3,4,5) by (simp add: wait_def)
  obtain err where er0: "check_and_convert_stream_to_string env
           (if args ''stderr'' = Some PIPE then Some (pipe_end ch args (child_stderr ch)) else None)
         = Inr err"
    using stderr_capture_ok[of args ch env] assms(8) by blast
  have ob: "observe env ch pat ?w ?p
      = Some (Inr (concat ds, ?p\<lparr>stdout := Some (at_eof ?s)\<rparr>), map LogDebug ds)"
    using observe_stream_piped[OF assms(1) _ assms(9), of ?p ch pat ?w] by simp
  have cap: "(if concat ds = []
              then check_and_convert_stream_to_string env (stdout (?p\<lparr>stdout := Some (at_eof ?s)\<rparr>))
              else Inr (concat ds)) = Inr (concat ds)"
    by (simp add: check_and_convert_stream_to_string_def check_and_process_bytes_at_eof)
  have er: "check_and_convert_stream_to_string env (stderr (?p\<lparr>stdout := Some (at_eof ?s)\<rparr>)) = Inr err"
    using er0 by simp
  from invoke_completes[OF po ob wt cap er] show ?thesis by simp
qed

lemma lines_processed:
  assumes "map utf8_decode ls = map Some ts"
  shows "map (check_and_process_bytes env) (map Bytes ls) = map Inr (map py_strip ts)"
  using assms
proof (induction ls arbitrary: ts)
  case Nil
  then show ?case by simp
next
  case (Cons l ls)
  then obtain t ts' where t: "ts = t # ts'" "utf8_decode l = Some t" "map utf8_decode ls = map Some ts'"
    by (cases ts) auto
  show ?case using Cons.IH[OF t(3)] t(1,2) by (simp add: check_and_process_bytes_def)
qed


subsection \<open>The claims\<close>

text \<open>
  C8.  Once \<^verbatim>\<open>Popen\<close> has returned a process, every way out of the call (a returned
  string, the error for a non-zero exit, an exception raised while polling, streaming,
  waiting or decoding) leaves the \<^verbatim>\<open>with\<close> block exactly once: the trace holds exactly
  one \<open>Released\<close>.  The call does return whenever the child exits.
\<close>

theorem C8_handle_released_once:
  assumes "launch_error ch = None"
  shows "(\<forall>r wd. invoke_subprocess_with_loading_pattern env ch args pat sw = Some (r, wd)
            \<longrightarrow> count_list (trace wd) Released = 1)
       \<and> (exits_after ch \<noteq> None
            \<longrightarrow> invoke_subprocess_with_loading_pattern env ch args pat sw \<noteq> None)"
proof (intro conjI allI impI)
  fix r wd
  assume "invoke_subprocess_with_loading_pattern env ch args pat sw = Some (r, wd)"
  from invoke_released[OF this] assms show "count_list (trace wd) Released = 1" by simp
next
  assume "exits_after ch \<noteq> None"
  then obtain n where "exits_after ch = Some n" by auto
  from invoke_returns[OF this, of env args pat sw]
  show "invoke_subprocess_with_loading_pattern env ch args pat sw \<noteq> None" by auto
qed

theorem C8_handle_released_once_witness:
  "launch_error (example_child [] [] 1) = None
   \<and> (\<exists>r wd. invoke_subprocess_with_loading_pattern (example_env 20)
                (example_child [] [] 1) echo_args quiet_pattern None = Some (r, wd)
              \<and> count_list (trace wd) Released = 1)"
proof -
  let ?ch = "example_child [] [] 1"
  have l: "launch_error ?ch = None" by (simp add: example_child_def)
  have e: "exits_after ?ch \<noteq> None" by (simp add: example_child_def)
  from C8_handle_released_once[OF l, of "example_env 20" echo_args quiet_pattern None] e l
  show ?thesis by (cases "invoke_subprocess_with_loading_pattern (example_env 20) ?ch echo_args quiet_pattern None") auto
qed

text \<open>
  C9.  When the caller's \<^verbatim>\<open>stdout\<close> entry is missing or falsy, the dictionary the caller
  holds after the call has \<^verbatim>\<open>stdout\<close> set to \<^verbatim>\<open>PIPE\<close>: it differs from the one passed
  in, and only in that entry.
\<close>

theorem C9_stdout_entry_set_in_place:
  assumes "\<not> truthy (dict_get args ''stdout'' PNone)"
    and "invoke_subprocess_with_loading_pattern env ch args pat sw = Some (r, wd)"
  shows "args_after wd = args(''stdout'' \<mapsto> PIPE) \<and> args_after wd \<noteq> args
       \<and> (\<forall>k. k \<noteq> ''stdout'' \<longrightarrow> args_after wd k = args k)"
proof -
  have a: "args_after wd = args(''stdout'' \<mapsto> PIPE)"
    using invoke_world[OF assms(2)] assms(1) by (simp add: default_stdout_def)
  have "args ''stdout'' \<noteq> Some PIPE"
    using assms(1) by (auto simp: dict_get_def PIPE_def)
  then have "args(''stdout'' \<mapsto> PIPE) \<noteq> args" by (metis fun_upd_same)
  then show ?thesis using a by simp
qed

theorem C9_stdout_entry_set_in_place_witness:
  "\<not> truthy (dict_get echo_args ''stdout'' PNone)
   \<and> (\<exists>r wd. invoke_subprocess_with_loading_pattern (example_env 20)
                (example_child [] [] 0) echo_args quiet_pattern None = Some (r, wd)
              \<and> args_after wd ''stdout'' = Some PIPE \<and> echo_args ''stdout'' = None
              \<and> args_after wd ''args'' = echo_args ''args'')"
proof -
  let ?ch = "example_child [] [] 0"
  have t: "\<not> truthy (dict_get echo_args ''stdout'' PNone)"
    by (simp add: dict_get_def echo_args_def)
  obtain r wd where i: "invoke_subprocess_with_loading_pattern (example_env 20) ?ch echo_args quiet_pattern None = Some (r, wd)"
    using invoke_returns[of ?ch 2 "example_env 20" echo_args quiet_pattern None]
    by (auto simp: example_child_def)
  from C9_stdout_entry_set_in_place[OF t i] i t
  show ?thesis by (auto simp: echo_args_def)
qed




text \<open>
  C3 as stated (bytes lose trailing whitespace only, text is stripped) fails: the bytes
  of \<^verbatim>\<open>" hi"\<close> give \<^verbatim>\<open>"hi"\<close>, the leading blank gone, and the text \<^verbatim>\<open>"hi\n"\<close>
  keeps its newline.
\<close>

theorem C3_counterexample:
  "check_and_process_bytes (example_env 20) (Bytes [0x20, 0x68, 0x69]) = Inr [0x68, 0x69]
   \<and> utf8_decode [0x20, 0x68, 0x69] = Some [0x20, 0x68, 0x69]
   \<and> py_rstrip [0x20, 0x68, 0x69] = [0x20, 0x68, 0x69]
   \<and> check_and_process_bytes (example_env 20) (Str [0x68, 0x69, 0x0A]) = Inr [0x68, 0x69, 0x0A]
   \<and> py_rstrip [0x68, 0x69, 0x0A] = [0x68, 0x69]"
  by (simp add: check_and_process_bytes_def py_strip_def py_lstrip_def py_rstrip_def py_isspace_def)

text \<open>
  C3.  The helper decodes bytes as UTF-8 and strips whitespace at both ends, not only at
  the end: what is left is the input without a run of whitespace before and a run of
  whitespace after, and it neither starts nor ends with whitespace.  Bytes that are not
  UTF-8 raise.  Text is returned as it is, unstripped.  The two examples of the claim
  hold.
\<close>

theorem C3_decoding_helper:
  "(\<forall>s. utf8_decode bs = Some s \<longrightarrow> check_and_process_bytes env (Bytes bs) = Inr (py_strip s))
   \<and> (utf8_decode bs = None
        \<longrightarrow> check_and_process_bytes env (Bytes bs) = Inl (ValueError (decode_error env bs)))
   \<and> check_and_process_bytes env (Str t) = Inr t
   \<and> (\<exists>l r. t = l @ py_strip t @ r \<and> list_all py_isspace l \<and> list_all py_isspace r
         \<and> (py_strip t = [] \<or> (\<not> py_isspace (hd (py_strip t)) \<and> \<not> py_isspace (last (py_strip t)))))
   \<and> check_and_process_bytes env (Bytes [0x68, 0x65, 0x6C, 0x6C, 0x6F, 0x20, 0x0A]) = Inr (ascii ''hello'')
   \<and> check_and_process_bytes env (Str (ascii ''hello'')) = Inr (ascii ''hello'')"
proof -
  have "check_and_process_bytes env (Bytes [0x68, 0x65, 0x6C, 0x6C, 0x6F, 0x20, 0x0A]) = Inr (ascii ''hello'')"
    by (simp add: check_and_process_bytes_def py_strip_def py_lstrip_def py_rstrip_def py_isspace_def ascii_def)
  then show ?thesis using py_strip_spec[of t]
    by (simp add: check_and_process_bytes_def)
qed

theorem C3_decoding_helper_witness:
  "utf8_decode [0x09, 0xC3, 0xA9, 0x0A] = Some [9, 233, 10]
   \<and> check_and_process_bytes (example_env 20) (Bytes [0x09, 0xC3, 0xA9, 0x0A]) = Inr [233]
   \<and> utf8_decode [0xC3] = None
   \<and> check_and_process_bytes (example_env 20) (Bytes [0xC3]) = Inl (ValueError (decode_error (example_env 20) [0xC3]))
   \<and> check_and_process_bytes (example_env 20) (Str [9, 233, 10]) = Inr [9, 233, 10]"
proof -
  have d: "utf8_decode [0x09, 0xC3, 0xA9, 0x0A] = Some [9, 233, 10]"
    by (simp add: continuation_def)
  have n: "utf8_decode [0xC3] = None" by simp
  have s: "py_strip [9, 233, 10] = [233]"
    by (simp add: py_strip_def py_lstrip_def py_rstrip_def py_isspace_def)
  from C3_decoding_helper[of "[0x09, 0xC3, 0xA9, 0x0A]" "example_env 20" "[9, 233, 10]"]
       C3_decoding_helper[of "[0xC3]" "example_env 20" "[]"] d n s
  show ?thesis by simp
qed

text \<open>
  C7 as stated (for every launched child) fails: in streaming mode a line that is not
  UTF-8 raises inside the loop, and the function leaves without having written anything.
\<close>

theorem C7_counterexample:
  "launch_error (example_child [0xFF, 0x0A] [] 0) = None
   \<and> outcome (invoke_subprocess_with_loading_pattern (example_env 10)
        (example_child [0xFF, 0x0A] [] 0) echo_args quiet_pattern None)
       = Some (Inl (LoadingPatternError
           (ascii ''Failed to execute the subprocess. Subprocess execution failed '' @ [0x5B, 0x27]
             @ ascii ''echo'' @ [0x27] @ ascii '', '' @ [0x27] @ ascii ''hi'' @ [0x27, 0x5D]
             @ ascii ''. '' @ invalid_start_byte)))
   \<and> trace_of (invoke_subprocess_with_loading_pattern (example_env 10)
        (example_child [0xFF, 0x0A] [] 0) echo_args quiet_pattern None)
       = [Released]"
  by (simp add: run_defs new_LoadingPatternError_def execution_failed_message_def
      invalid_start_byte_def ascii_def emit_def)

text \<open>
  C7.  For a launched child.  When the observation loop ends without an exception and
  \<^verbatim>\<open>wait()\<close> returns an exit code (zero or not, either mode), the function writes the
  line separator to the writer once and flushes it once, after the loop's own calls and
  before it decodes the pipes, raises the error for a non-zero exit and leaves the
  \<^verbatim>\<open>with\<close> block.  When the loop raises, or \<^verbatim>\<open>wait()\<close> raises, the function writes
  nothing to the writer and does not flush it.
\<close>

theorem C7_line_separator_once:
  assumes "Popen ch (default_stdout args) = Inr p"
  shows "(\<forall>out p' tr rc.
            observe env ch pat (writer_or_stderr sw) p = Some (Inr (out, p'), tr)
            \<and> wait ch = Some (Inr rc)
            \<longrightarrow> trace_of (invoke_subprocess_with_loading_pattern env ch args pat sw)
                  = tr @ [SinkWrite (writer_or_stderr sw) (linesep env),
                          SinkFlush (writer_or_stderr sw), Released]
                \<and> filter sink_event (trace_of (invoke_subprocess_with_loading_pattern env ch args pat sw))
                  = [SinkWrite (writer_or_stderr sw) (linesep env), SinkFlush (writer_or_stderr sw)]
                \<and> invoke_subprocess_with_loading_pattern env ch args pat sw \<noteq> None)
       \<and> (\<forall>e tr.
            observe env ch pat (writer_or_stderr sw) p = Some (Inl e, tr)
            \<longrightarrow> filter sink_event (trace_of (invoke_subprocess_with_loading_pattern env ch args pat sw)) = [])
       \<and> (\<forall>out p' tr e.
            observe env ch pat (writer_or_stderr sw) p = Some (Inr (out, p'), tr)
            \<and> wait ch = Some (Inl e)
            \<longrightarrow> filter sink_event (trace_of (invoke_subprocess_with_loading_pattern env ch args pat sw)) = [])"
proof -
  let ?w = "writer_or_stderr sw"
  let ?inv = "invoke_subprocess_with_loading_pattern env ch args pat sw"
  have raised: "filter sink_event (trace_of ?inv) = []"
    if b: "with_body env ch (default_stdout args) pat ?w p = Some (Inl e, tr)"
      and f: "filter sink_event tr = []" for e tr
  proof (cases "exits_after ch")
    case None
    then have "?inv = None"
      using assms b
      by (simp add: invoke_subprocess_with_loading_pattern_def Let_def launch_def popen_exit_def)
    then show ?thesis by (simp add: trace_of_def)
  next
    case (Some n)
    from invoke_launched[OF assms b Some] f show ?thesis by (simp add: trace_of_def)
  qed
  have part1: "trace_of ?inv = tr @ [SinkWrite ?w (linesep env), SinkFlush ?w, Released]
                \<and> filter sink_event (trace_of ?inv) = [SinkWrite ?w (linesep env), SinkFlush ?w]
                \<and> ?inv \<noteq> None"
    if o: "observe env ch pat ?w p = Some (Inr (out, p'), tr)" and wt: "wait ch = Some (Inr rc)"
    for out p' tr rc
  proof -
    obtain r where b: "with_body env ch (default_stdout args) pat ?w p
        = Some (r, tr @ [SinkWrite ?w (linesep env), SinkFlush ?w])"
      using with_body_sink[OF o wt] by blast
    obtain n where n: "exits_after ch = Some n"
      using wt by (auto simp: wait_def split: option.splits)
    have f: "filter sink_event tr = []" using observe_trace[OF o] by simp
    show ?thesis using invoke_launched[OF assms b n] f by (simp add: trace_of_def)
  qed
  have part2: "filter sink_event (trace_of ?inv) = []"
    if o: "observe env ch pat ?w p = Some (Inl e, tr)" for e tr
  proof -
    have b: "with_body env ch (default_stdout args) pat ?w p = Some (Inl e, tr)"
      using o by (simp add: with_body_def)
    show ?thesis using raised[OF b] observe_trace[OF o] by simp
  qed
  have part3: "filter sink_event (trace_of ?inv) = []"
    if o: "observe env ch pat ?w p = Some (Inr (out, p'), tr)" and wt: "wait ch = Some (Inl e)"
    for out p' tr e
  proof -
    have b: "with_body env ch (default_stdout args) pat ?w p = Some (Inl e, tr)"
      using o wt by (simp add: with_body_def)
    show ?thesis using raised[OF b] observe_trace[OF o] by simp
  qed
  show ?thesis using part1 part2 part3 by blast
qed

theorem C7_line_separator_once_witness:
  "trace_of (invoke_subprocess_with_loading_pattern (example_env 20)
      (example_child [] [] 1) echo_args quiet_pattern (Some (Writer 7)))
     = [PatternCall (Writer 7), PatternCall (Writer 7), SinkWrite (Writer 7) [10],
        SinkFlush (Writer 7), Released]
   \<and> trace_of (invoke_subprocess_with_loading_pattern (example_env 10)
      (example_child [0x61, 0x0A, 0x62, 0x0A] [] 0) echo_args quiet_pattern None)
     = [LogDebug [0x61], LogDebug [0x62], SinkWrite StderrWriter [10], SinkFlush StderrWriter, Released]
   \<and> filter sink_event (trace_of (invoke_subprocess_with_loading_pattern (example_env 20)
      (example_child [] [] 0) echo_args failing_pattern None)) = []
   \<and> filter sink_event (trace_of (invoke_subprocess_with_loading_pattern (example_env 20)
      ((example_child [] [] 0)\<lparr>wait_error := Some (OSError (ascii ''interrupted''))\<rparr>)
      echo_args quiet_pattern None)) = []"
proof -
  let ?c1 = "example_child [] [] 1"
  let ?p1 = "\<lparr>stdout = Some (Bytes []), stderr = None\<rparr>"
  have a1: "Popen ?c1 (default_stdout echo_args) = Inr ?p1"
    by (simp add: run_defs)
  have a2: "observe (example_env 20) ?c1 quiet_pattern (writer_or_stderr (Some (Writer 7))) ?p1
      = Some (Inr ([], ?p1), [PatternCall (Writer 7), PatternCall (Writer 7)])"
    by (simp add: run_defs)
  have a3: "wait ?c1 = Some (Inr 1)" by (simp add: run_defs)
  let ?c2 = "example_child [0x61, 0x0A, 0x62, 0x0A] [] 0"
  let ?p2 = "\<lparr>stdout = Some (Bytes [0x61, 0x0A, 0x62, 0x0A]), stderr = None\<rparr>"
  have b1: "Popen ?c2 (default_stdout echo_args) = Inr ?p2"
    by (simp add: run_defs)
  have b2: "observe (example_env 10) ?c2 quiet_pattern (writer_or_stderr None) ?p2
      = Some (Inr ([0x61, 0x62], ?p2\<lparr>stdout := Some (Bytes [])\<rparr>), [LogDebug [0x61], LogDebug [0x62]])"
    by (simp add: run_defs)
  have b3: "wait ?c2 = Some (Inr 0)" by (simp add: run_defs)
  let ?c3 = "example_child [] [] 0"
  have c1: "Popen ?c3 (default_stdout echo_args) = Inr ?p1"
    by (simp add: run_defs)
  have c2: "observe (example_env 20) ?c3 failing_pattern (writer_or_stderr None) ?p1
      = Some (Inl (OtherError (ascii ''interrupted'')), [PatternCall StderrWriter, PatternCall StderrWriter])"
    by (simp add: run_defs failing_pattern_def)
  let ?c4 = "(example_child [] [] 0)\<lparr>wait_error := Some (OSError (ascii ''interrupted''))\<rparr>"
  have d1: "Popen ?c4 (default_stdout echo_args) = Inr ?p1"
    by (simp add: run_defs)
  have d2: "observe (example_env 20) ?c4 quiet_pattern (writer_or_stderr None) ?p1
      = Some (Inr ([], ?p1), [PatternCall StderrWriter, PatternCall StderrWriter])"
    by (simp add: run_defs)
  have d3: "wait ?c4 = Some (Inl (OSError (ascii ''interrupted'')))" by (simp add: run_defs)
  have r1: "trace_of (invoke_subprocess_with_loading_pattern (example_env 20) ?c1 echo_args
              quiet_pattern (Some (Writer 7)))
            = [PatternCall (Writer 7), PatternCall (Writer 7)]
                @ [SinkWrite (writer_or_stderr (Some (Writer 7))) (linesep (example_env 20)),
                   SinkFlush (writer_or_stderr (Some (Writer 7))), Released]"
    using C7_line_separator_once[OF a1, of "example_env 20" quiet_pattern "Some (Writer 7)"] a2 a3
    by blast
  have r2: "trace_of (invoke_subprocess_with_loading_pattern (example_env 10) ?c2 echo_args
              quiet_pattern None)
            = [LogDebug [0x61], LogDebug [0x62]]
                @ [SinkWrite (writer_or_stderr None) (linesep (example_env 10)),
                   SinkFlush (writer_or_stderr None), Released]"
    using C7_line_separator_once[OF b1, of "example_env 10" quiet_pattern None] b2 b3
    by blast
  have r3: "filter sink_event (trace_of (invoke_subprocess_with_loading_pattern (example_env 20)
              ?c3 echo_args failing_pattern None)) = []"
    using C7_line_separator_once[OF c1, of "example_env 20" failing_pattern None] c2
    by blast
  have r4: "filter sink_event (trace_of (invoke_subprocess_with_loading_pattern (example_env 20)
              ?c4 echo_args quiet_pattern None)) = []"
    using C7_line_separator_once[OF d1, of "example_env 20" quiet_pattern None] d2 d3
    by blast
  show ?thesis using r1 r2 r3 r4
    by (simp add: example_env_def writer_or_stderr_def)
qed




text \<open>
  C4.  A launch that fails with an \<^verbatim>\<open>OSError\<close> is caught and
  \<^verbatim>\<open>LoadingPatternError\<close> is built from the argument vector and the error text.  Its
  constructor formats the finished message a second time with \<^verbatim>\<open>str.format\<close>, so a
  brace in that text is read as a replacement field: for the arguments \<^verbatim>\<open>["{}"]\<close> the
  exception that leaves the function is \<^verbatim>\<open>IndexError\<close>.  (Where the text has no
  brace the error is wrapped as claimed: \<open>launch_failure_wrapped\<close> and
  \<open>wait_failure_wrapped\<close>.)
\<close>

theorem C4_launch_error_with_braces:
  "py_str (example_env 20) (dict_get braces_args ''args'' (PList [])) = [0x5B, 0x27] @ ascii ''{}'' @ [0x27, 0x5D]
   \<and> outcome (invoke_subprocess_with_loading_pattern (example_env 20) no_such_file braces_args
        quiet_pattern None) = Some (Inl IndexError)"
  by (simp add: run_defs braces_args_def no_such_file_def new_LoadingPatternError_def
      execution_failed_message_def ascii_def emit_def)




text \<open>
  C10.  When the request does not set \<^verbatim>\<open>stderr\<close> to \<^verbatim>\<open>PIPE\<close>, the process has no
  stderr stream and the capture gives the empty string; the result of the call does not
  depend on \<open>child_stderr\<close>; and the message raised for a non-zero exit ends after
  "non-zero exit code N. ", with no stderr text.
\<close>

theorem C10_stderr_only_through_pipe:
  assumes "args ''stderr'' \<noteq> Some PIPE"
  shows "(\<forall>p. Popen ch (default_stdout args) = Inr p
            \<longrightarrow> stderr p = None \<and> check_and_convert_stream_to_string env (stderr p) = Inr [])
       \<and> invoke_subprocess_with_loading_pattern env (ch\<lparr>child_stderr := e1\<rparr>) args pat sw
           = invoke_subprocess_with_loading_pattern env (ch\<lparr>child_stderr := e2\<rparr>) args pat sw
       \<and> (\<forall>p out p' tr rc out'.
             Popen ch (default_stdout args) = Inr p
             \<and> observe env ch pat (writer_or_stderr sw) p = Some (Inr (out, p'), tr)
             \<and> wait ch = Some (Inr rc) \<and> rc \<noteq> 0
             \<and> (if out = [] then check_and_convert_stream_to_string env (stdout p') else Inr out) = Inr out'
             \<and> brace_free (py_str env (dict_get args ''args'' (PList [])))
            \<longrightarrow> outcome (invoke_subprocess_with_loading_pattern env ch args pat sw)
                  = Some (Inl (LoadingPatternError
                      (ascii ''Failed to execute the subprocess. The process ''
                        @ py_str env (dict_get args ''args'' (PList []))
                        @ ascii '' returned a non-zero exit code '' @ py_str_int rc @ ascii ''. ''))))"
proof -
  have ne: "default_stdout args ''stderr'' \<noteq> Some PIPE"
    using assms by (simp add: default_stdout_other)
  have part1: "\<forall>p. Popen ch (default_stdout args) = Inr p
            \<longrightarrow> stderr p = None \<and> check_and_convert_stream_to_string env (stderr p) = Inr []"
    using ne by (auto simp: Popen_def check_and_convert_stream_to_string_def split: option.splits)
  have po: "Popen (ch\<lparr>child_stderr := e\<rparr>) (default_stdout args) = Popen ch (default_stdout args)" for e
    using ne by (simp add: Popen_def pipe_end_def split: option.splits)
  have ws: "wait (ch\<lparr>child_stderr := e\<rparr>) = wait ch" for e
    by (simp add: wait_def split: option.splits)
  have ob: "observe env (ch\<lparr>child_stderr := e\<rparr>) pat w p = observe env ch pat w p" for e w p
    by (simp add: observe_def poll_child_stderr split: option.splits)
  have wb: "with_body env (ch\<lparr>child_stderr := e\<rparr>) kw pat w p = with_body env ch kw pat w p" for e kw w p
    unfolding with_body_def ws ob by (rule refl)
  have pe: "popen_exit (ch\<lparr>child_stderr := e\<rparr>) tr = popen_exit ch tr" for e tr
    by (simp add: popen_exit_def split: option.splits)
  have "invoke_subprocess_with_loading_pattern env (ch\<lparr>child_stderr := e\<rparr>) args pat sw
          = invoke_subprocess_with_loading_pattern env ch args pat sw" for e
    unfolding invoke_subprocess_with_loading_pattern_def Let_def launch_def po wb pe by (rule refl)
  then have part2: "invoke_subprocess_with_loading_pattern env (ch\<lparr>child_stderr := e1\<rparr>) args pat sw
           = invoke_subprocess_with_loading_pattern env (ch\<lparr>child_stderr := e2\<rparr>) args pat sw"
    by simp
  have part3: "\<forall>p out p' tr rc out'.
             Popen ch (default_stdout args) = Inr p
             \<and> observe env ch pat (writer_or_stderr sw) p = Some (Inr (out, p'), tr)
             \<and> wait ch = Some (Inr rc) \<and> rc \<noteq> 0
             \<and> (if out = [] then check_and_convert_stream_to_string env (stdout p') else Inr out) = Inr out'
             \<and> brace_free (py_str env (dict_get args ''args'' (PList [])))
            \<longrightarrow> outcome (invoke_subprocess_with_loading_pattern env ch args pat sw)
                  = Some (Inl (LoadingPatternError
                      (ascii ''Failed to execute the subprocess. The process ''
                        @ py_str env (dict_get args ''args'' (PList []))
                        @ ascii '' returned a non-zero exit code '' @ py_str_int rc @ ascii ''. '')))"
  proof (intro allI impI)
    fix p out p' tr rc out'
    assume h: "Popen ch (default_stdout args) = Inr p
             \<and> observe env ch pat (writer_or_stderr sw) p = Some (Inr (out, p'), tr)
             \<and> wait ch = Some (Inr rc) \<and> rc \<noteq> 0
             \<and> (if out = [] then check_and_convert_stream_to_string env (stdout p') else Inr out) = Inr out'
             \<and> brace_free (py_str env (dict_get args ''args'' (PList [])))"
    have "stderr p = None" using h part1 by blast
    then have "stderr p' = None"
      using observe_keeps_stderr[of env ch pat "writer_or_stderr sw" p out p' tr] h by simp
    then have er: "check_and_convert_stream_to_string env (stderr p') = Inr []"
      by (simp add: check_and_convert_stream_to_string_def)
    have bf: "brace_free (nonzero_exit_message env (default_stdout args) rc [])"
      using nonzero_exit_message_brace_free[of env args "[]" rc] h by (simp add: brace_free_def)
    have "outcome (invoke_subprocess_with_loading_pattern env ch args pat sw)
          = Some (Inl (LoadingPatternError (ascii ''Failed to execute the subprocess. ''
                @ nonzero_exit_message env (default_stdout args) rc [])))"
      using invoke_completes[of ch args p env pat sw out p' tr rc out' "[]"] h er
        new_LoadingPatternError_brace_free[OF bf]
      by simp
    then show "outcome (invoke_subprocess_with_loading_pattern env ch args pat sw)
                  = Some (Inl (LoadingPatternError
                      (ascii ''Failed to execute the subprocess. The process ''
                        @ py_str env (dict_get args ''args'' (PList []))
                        @ ascii '' returned a non-zero exit code '' @ py_str_int rc @ ascii ''. '')))"
      by (simp add: nonzero_exit_message_def dict_get_default_stdout ascii_def)
  qed
  show ?thesis using part1 part2 part3 by blast
qed

theorem C10_stderr_only_through_pipe_witness:
  "echo_args ''stderr'' \<noteq> Some PIPE
   \<and> outcome (invoke_subprocess_with_loading_pattern (example_env 20)
        (example_child [] (map of_char ''boom'') 2) echo_args quiet_pattern None)
       = Some (Inl (LoadingPatternError
           (ascii ''Failed to execute the subprocess. The process '' @ [0x5B, 0x27]
             @ ascii ''echo'' @ [0x27] @ ascii '', '' @ [0x27] @ ascii ''hi'' @ [0x27, 0x5D]
             @ ascii '' returned a non-zero exit code 2. '')))"
proof -
  let ?e = "example_env 20"
  let ?c = "example_child [] (map of_char ''boom'') 2"
  let ?p = "\<lparr>stdout = Some (Bytes []), stderr = None\<rparr>"
  have h: "echo_args ''stderr'' \<noteq> Some PIPE" by (simp add: echo_args_def)
  have a1: "Popen ?c (default_stdout echo_args) = Inr ?p" by (simp add: run_defs)
  have a2: "observe ?e ?c quiet_pattern (writer_or_stderr None) ?p
      = Some (Inr ([], ?p), [PatternCall StderrWriter, PatternCall StderrWriter])"
    by (simp add: run_defs)
  have a3: "wait ?c = Some (Inr 2)" by (simp add: run_defs)
  have a4: "(2::int) \<noteq> 0" by simp
  have a5: "(if ([]::pystr) = [] then check_and_convert_stream_to_string ?e (stdout ?p) else Inr [])
      = Inr []"
    by (simp add: run_defs)
  have a6: "brace_free (py_str ?e (dict_get echo_args ''args'' (PList [])))"
    by (simp add: run_defs brace_free_def ascii_def)
  from C10_stderr_only_through_pipe[where args = echo_args and ch = ?c and env = ?e and pat = quiet_pattern and sw = None, OF h]
  have "outcome (invoke_subprocess_with_loading_pattern ?e ?c echo_args quiet_pattern None)
          = Some (Inl (LoadingPatternError
                      (ascii ''Failed to execute the subprocess. The process ''
                        @ py_str ?e (dict_get echo_args ''args'' (PList []))
                        @ ascii '' returned a non-zero exit code '' @ py_str_int 2 @ ascii ''. '')))"
    using a1 a2 a3 a4 a5 a6 by blast
  then show ?thesis using h
    by (simp add: run_defs py_str_int_def nat_digits.simps ascii_def)
qed

text \<open>
  C1 as stated (trailing whitespace trimmed) fails: in indicator mode \<^verbatim>\<open>" hi\n"\<close> gives
  \<^verbatim>\<open>"hi"\<close>, and in streaming mode \<^verbatim>\<open>"a\nb\n"\<close> gives \<^verbatim>\<open>"ab"\<close>.
\<close>

theorem C1_counterexample:
  "outcome (invoke_subprocess_with_loading_pattern (example_env 20)
      (example_child [0x20, 0x68, 0x69, 0x0A] [] 0) echo_args quiet_pattern None)
     = Some (Inr [0x68, 0x69])
   \<and> utf8_decode [0x20, 0x68, 0x69, 0x0A] = Some [0x20, 0x68, 0x69, 0x0A]
   \<and> py_rstrip [0x20, 0x68, 0x69, 0x0A] = [0x20, 0x68, 0x69]
   \<and> outcome (invoke_subprocess_with_loading_pattern (example_env 10)
      (example_child [0x61, 0x0A, 0x62, 0x0A] [] 0) echo_args quiet_pattern None)
     = Some (Inr [0x61, 0x62])
   \<and> utf8_decode [0x61, 0x0A, 0x62, 0x0A] = Some [0x61, 0x0A, 0x62, 0x0A]
   \<and> py_rstrip [0x61, 0x0A, 0x62, 0x0A] = [0x61, 0x0A, 0x62]"
  by (simp add: run_defs)

text \<open>
  C1.  For a request with the default pipe, binary (not in text mode) and without
  \<^verbatim>\<open>stderr=STDOUT\<close>, a child that is launched, writes bytes that decode to the text \<open>T\<close>
  to its standard output and exits with code 0, a \<^verbatim>\<open>wait()\<close> that raises nothing, in
  indicator mode a loading pattern that raises nothing, and, where standard error is on a
  pipe, a captured standard error that is UTF-8: in indicator mode the function returns
  \<open>T\<close> with whitespace stripped at both ends; in streaming mode it returns the lines of
  \<open>T\<close>, each stripped at both ends, concatenated.
\<close>

theorem C1_captured_output:
  assumes "launch_error ch = None" and "exits_after ch = Some n" and "wait_error ch = None"
    and "returncode ch = 0"
    and "\<not> truthy (dict_get args ''stdout'' PNone)"
    and "\<not> text_mode args" and "args ''stderr'' \<noteq> Some STDOUT"
    and "utf8_decode (child_stdout ch) = Some T"
    and "INFO \<le> log_level env \<Longrightarrow> \<forall>j<n. pat j = None"
    and "args ''stderr'' = Some PIPE \<Longrightarrow> utf8_decode (child_stderr ch) \<noteq> None"
  shows "outcome (invoke_subprocess_with_loading_pattern env ch args pat sw)
           = Some (Inr (if INFO \<le> log_level env then py_strip T
                        else concat (map py_strip (split_lines 10 T))))"
proof -
  let ?kw = "default_stdout args"
  let ?p = "\<lparr>stdout = Some (Bytes (child_stdout ch)),
            stderr = (if args ''stderr'' = Some PIPE then Some (Bytes (child_stderr ch)) else None)\<rparr>"
  let ?w = "writer_or_stderr sw"
  have pipe: "?kw ''stdout'' = Some PIPE" using assms(5) by (simp add: default_stdout_def)
  have po: "Popen ch ?kw = Inr ?p" by (rule popen_binary[OF assms(1) pipe assms(6,7)])
  have wt: "wait ch = Some (Inr 0)" using assms(2,3,4) by (simp add: wait_def)
  have whole: "check_and_process_bytes env (Bytes (child_stdout ch)) = Inr (py_strip T)"
    using assms(8) by (simp add: check_and_process_bytes_def)
  show ?thesis
  proof (cases "INFO \<le> log_level env")
    case True
    have ob: "observe env ch pat ?w ?p = Some (Inr ([], ?p), replicate n (PatternCall ?w))"
      using observe_indicator[OF True assms(2) assms(9)[OF True]] .
    have cap: "(if ([]::pystr) = [] then check_and_convert_stream_to_string env (stdout ?p) else Inr [])
        = Inr (py_strip T)"
      using whole by (simp add: check_and_convert_stream_to_string_def)
    obtain err where er0: "check_and_convert_stream_to_string env
           (if args ''stderr'' = Some PIPE then Some (pipe_end ch args (child_stderr ch)) else None)
         = Inr err"
      using stderr_capture_ok[of args ch env] assms(10) by blast
    then have er: "check_and_convert_stream_to_string env (stderr ?p) = Inr err"
      using assms(6) by (cases "args ''stderr'' = Some PIPE") (simp_all add: pipe_end_def)
    from invoke_completes[OF po ob wt cap er] True show ?thesis by simp
  next
    case False
    then have lv: "log_level env < INFO" by simp
    have "map (check_and_process_bytes env) (map Bytes (split_lines 0x0A (child_stdout ch)))
            = map Inr (map py_strip (split_lines 10 T))"
      by (rule lines_processed[OF utf8_decode_lines[OF assms(8)]])
    then have ls: "map (check_and_process_bytes env) (file_lines (pipe_end ch args (child_stdout ch)))
            = map Inr (map py_strip (split_lines 10 T))"
      using assms(6) by (simp add: pipe_end_def)
    have s9: "args ''stderr'' = Some PIPE \<Longrightarrow> \<not> text_mode args \<Longrightarrow> utf8_decode (child_stderr ch) \<noteq> None"
      using assms(10) by simp
    from streamed_outcome[OF lv assms(1,2,3,4) pipe assms(7) s9 ls] False
    show ?thesis by simp
  qed
qed

theorem C1_captured_output_witness:
  "utf8_decode [0x09, 0x61, 0x0A, 0x20, 0x62, 0x0A] = Some [9, 97, 10, 32, 98, 10]
   \<and> outcome (invoke_subprocess_with_loading_pattern (example_env 20)
        (example_child [0x09, 0x61, 0x0A, 0x20, 0x62, 0x0A] [] 0) echo_args
        quiet_pattern None)
       = Some (Inr [97, 10, 32, 98])
   \<and> outcome (invoke_subprocess_with_loading_pattern (example_env 10)
        (example_child [0x09, 0x61, 0x0A, 0x20, 0x62, 0x0A] [] 0) echo_args
        quiet_pattern None)
       = Some (Inr [97, 98])"
proof -
  let ?c = "example_child [0x09, 0x61, 0x0A, 0x20, 0x62, 0x0A] [] 0"
  have h1: "launch_error ?c = None" by (simp add: example_child_def)
  have h2: "exits_after ?c = Some 2" by (simp add: example_child_def)
  have h3: "wait_error ?c = None" by (simp add: example_child_def)
  have h4: "returncode ?c = 0" by (simp add: example_child_def)
  have h5: "\<not> truthy (dict_get echo_args ''stdout'' PNone)"
    by (simp add: dict_get_def echo_args_def)
  have h6: "\<not> text_mode echo_args" by (simp add: text_mode_def dict_get_def echo_args_def)
  have h7: "echo_args ''stderr'' \<noteq> Some STDOUT" by (simp add: echo_args_def)
  have h8: "utf8_decode (child_stdout ?c) = Some [9, 97, 10, 32, 98, 10]"
    by (simp add: example_child_def)
  have h9: "\<forall>j<2. quiet_pattern j = None" by (simp add: quiet_pattern_def)
  have h10: "echo_args ''stderr'' = Some PIPE \<Longrightarrow> utf8_decode (child_stderr ?c) \<noteq> None"
    by (simp add: echo_args_def)
  have s: "py_strip [9, 97, 10, 32, 98, 10] = [97, 10, 32, 98]"
      "concat (map py_strip (split_lines 10 [9, 97, 10, 32, 98, 10])) = [97, 98]"
    by (simp_all add: py_strip_def py_lstrip_def py_rstrip_def py_isspace_def)
  have u: "utf8_decode [0x09, 0x61, 0x0A, 0x20, 0x62, 0x0A] = Some [9, 97, 10, 32, 98, 10]" by simp
  from C1_captured_output[OF h1 h2 h3 h4 h5 h6 h7 h8 h9 h10, of "example_env 20" None]
       C1_captured_output[OF h1 h2 h3 h4 h5 h6 h7 h8 h9 h10, of "example_env 10" None] u s
  show ?thesis by (simp add: example_env_def INFO_def)
qed

end
